theory Spec2Isabelle
  imports Main
begin

section \<open>The block graph of core/block.js and the workspace of the unnamed source file\<close>

text \<open>
  The JavaScript objects are kept in an explicit store: a block reference and a
  connection reference are natural numbers, and the store maps every reference to the
  record of the object's fields. A method that mutates objects takes the store and
  returns the new one. One workspace is modelled; its fields (\<open>topBlocks_\<close>,
  \<open>blockDB_\<close>, \<open>undoStack_\<close>, \<open>redoStack_\<close>, \<open>MAX_UNDO\<close>) and the process-wide
  fields of \<open>Blockly.Events\<close> live in the same state record.

  Fields that only matter to rendering (colour, tooltip, collapsed, disabled, the
  coordinates, the comment) are left out: no function modelled here reads them. Blocks
  have no \<open>onchange\<close> handler and the workspace has no change listener, since both are
  arbitrary callbacks; the loop over \<open>listeners_\<close> in \<open>fireChangeListener\<close> therefore
  has nothing to call.
\<close>

type_synonym bref = nat
type_synonym cref = nat

text \<open>The constants \<open>Blockly.INPUT_VALUE\<close> ... \<open>Blockly.DUMMY_INPUT\<close>, used both as
  connection types and as input types.\<close>

datatype conn_type = INPUT_VALUE | OUTPUT_VALUE | NEXT_STATEMENT | PREVIOUS_STATEMENT | DUMMY_INPUT

record connection =
  sourceBlock :: bref
  conn_type :: conn_type
  check :: "string list option"
  targetConnection :: "cref option"
  conn_disposed :: bool

text \<open>A field of an input row: \<open>field.name\<close> may be undefined (\<open>None\<close>), and
  \<open>field.getValue()\<close> is the stored text.\<close>

record field =
  field_name :: "string option"
  field_value :: string

record input =
  input_type :: conn_type
  input_name :: string
  connection :: "cref option"
  fieldRow :: "field list"

record block =
  block_id :: string
  block_type :: "string option"
  outputConnection :: "cref option"
  nextConnection :: "cref option"
  previousConnection :: "cref option"
  inputList :: "input list"
  parentBlock :: "bref option"
  childBlocks :: "bref list"
  workspace :: bool

datatype event_type = CREATE | DELETE | CHANGE | MOVE

text \<open>\<open>Blockly.Events.Abstract\<close> (core/events_abstract.js): every event has a
  \<open>group\<close> (the empty string when no group is open) and a \<open>recordUndo\<close> flag, both
  copied from \<open>Blockly.Events\<close> when the event is constructed. \<open>isNull\<close> is the result
  of the method of that name, which subclasses override.\<close>

record event =
  event_type :: event_type
  blockId :: string
  group :: string
  recordUndo :: bool
  isNull :: bool

text \<open>The order in which calls of interest happen is recorded in \<open>calls\<close>. No modelled
  function reads it: it is the observation the ordering claims are stated on.\<close>

datatype call =
    Fired event
  | Deregistered bref
  | DisposedInputs bref
  | DisposedConnections bref
  | Ran event bool bool

record state =
  blocks :: "bref \<Rightarrow> block"
  conns :: "cref \<Rightarrow> connection"
  nextBlockRef :: bref
  nextConnRef :: cref
  topBlocks :: "bref list"
  blockDB :: "string \<Rightarrow> bref option"
  undoStack :: "event list"
  redoStack :: "event list"
  MAX_UNDO :: nat
  Events_recordUndo :: bool
  Events_disabled :: nat
  Events_group :: string
  uidCount :: nat
  calls :: "call list"

datatype error =
    AssertionError
  | StillConnectedToPrevious
  | StillConnectedToParent
  | NotInTopBlocks
  | ConnectionError
  | TypeError

text \<open>A JavaScript call either returns or throws; in both cases the mutations made so
  far stay in the store.\<close>

datatype outcome = Normal state | Thrown error state

fun state_of :: "outcome \<Rightarrow> state" where
  "state_of (Normal s) = s"
| "state_of (Thrown e s) = s"

fun is_Normal :: "outcome \<Rightarrow> bool" where
  "is_Normal (Normal s) = True"
| "is_Normal (Thrown e s) = False"

fun and_then :: "outcome \<Rightarrow> (state \<Rightarrow> outcome) \<Rightarrow> outcome" where
  "and_then (Normal s) f = f s"
| "and_then (Thrown e s) f = Thrown e s"

text \<open>\<open>try { ... } finally { g }\<close>: \<open>g\<close> runs on either outcome.\<close>

fun try_finally :: "outcome \<Rightarrow> (state \<Rightarrow> state) \<Rightarrow> outcome" where
  "try_finally (Normal s) g = Normal (g s)"
| "try_finally (Thrown e s) g = Thrown e (g s)"

definition upd_block :: "bref \<Rightarrow> (block \<Rightarrow> block) \<Rightarrow> state \<Rightarrow> state" where
  "upd_block b f s = s\<lparr>blocks := (blocks s)(b := f (blocks s b))\<rparr>"

definition upd_conn :: "cref \<Rightarrow> (connection \<Rightarrow> connection) \<Rightarrow> state \<Rightarrow> state" where
  "upd_conn c f s = s\<lparr>conns := (conns s)(c := f (conns s c))\<rparr>"

text \<open>A JavaScript string or null used as a condition: null, undefined and the empty
  string are falsy.\<close>

fun truthy :: "string option \<Rightarrow> bool" where
  "truthy None = False"
| "truthy (Some x) = (x \<noteq> [])"

subsection \<open>Workspace: top blocks, registry, undo stack\<close>

definition addTopBlock :: "state \<Rightarrow> bref \<Rightarrow> state" where
  "addTopBlock s b = s\<lparr>topBlocks := topBlocks s @ [b]\<rparr>"

text \<open>\<open>goog.array.remove\<close> removes the first occurrence and says whether there was one.\<close>

definition removeTopBlock :: "state \<Rightarrow> bref \<Rightarrow> outcome" where
  "removeTopBlock s b =
     (if b \<in> set (topBlocks s) then Normal (s\<lparr>topBlocks := remove1 b (topBlocks s)\<rparr>)
      else Thrown NotInTopBlocks s)"

text \<open>\<open>return this.blockDB_[id] || null\<close>: the registry is created with
  \<open>Object.create(null)\<close>, so a key that was never stored reads as undefined, and a block
  object is never falsy.\<close>

definition getBlockById :: "state \<Rightarrow> string \<Rightarrow> bref option" where
  "getBlockById s i = (case blockDB s i of Some b \<Rightarrow> Some b | None \<Rightarrow> None)"

text \<open>\<open>Array.prototype.unshift(e1, ..., en)\<close> puts its arguments in front of the array.\<close>

definition unshift :: "'a list \<Rightarrow> 'a list \<Rightarrow> 'a list" where
  "unshift xs args = args @ xs"

definition fireChangeListener :: "state \<Rightarrow> event \<Rightarrow> state" where
  "fireChangeListener s ev =
     (if recordUndo ev then
        (let s1 = s\<lparr>undoStack := undoStack s @ [ev]\<rparr>;
             s2 = s1\<lparr>redoStack := []\<rparr>
         in if length (undoStack s2) > MAX_UNDO s2
            then s2\<lparr>undoStack := unshift (undoStack s2) []\<rparr>
            else s2)
      else s)"

subsection \<open>Block: lookups by name\<close>

text \<open>A loop \<open>for (var i = 0, input; input = this.inputList[i]; i++)\<close> runs over the
  whole list: its elements are objects, never falsy.\<close>

fun find_field :: "field list \<Rightarrow> string \<Rightarrow> field option" where
  "find_field [] n = None"
| "find_field (f # fs) n = (if field_name f = Some n then Some f else find_field fs n)"

fun getField_loop :: "input list \<Rightarrow> string \<Rightarrow> field option" where
  "getField_loop [] n = None"
| "getField_loop (i # is) n =
     (case find_field (fieldRow i) n of Some f \<Rightarrow> Some f | None \<Rightarrow> getField_loop is n)"

definition getField :: "state \<Rightarrow> bref \<Rightarrow> string \<Rightarrow> field option" where
  "getField s b n = getField_loop (inputList (blocks s b)) n"

definition getFieldValue :: "state \<Rightarrow> bref \<Rightarrow> string \<Rightarrow> string option" where
  "getFieldValue s b n =
     (case getField s b n of Some f \<Rightarrow> Some (field_value f) | None \<Rightarrow> None)"

fun getInput_loop :: "input list \<Rightarrow> string \<Rightarrow> input option" where
  "getInput_loop [] n = None"
| "getInput_loop (i # is) n = (if input_name i = n then Some i else getInput_loop is n)"

definition getInput :: "state \<Rightarrow> bref \<Rightarrow> string \<Rightarrow> input option" where
  "getInput s b n = getInput_loop (inputList (blocks s b)) n"


subsection \<open>Blockly.Events: enabling, groups, firing\<close>

text \<open>Modelled from the spec: core/events.js (\<open>Blockly.Events.isEnabled\<close>, \<open>disable\<close>,
  \<open>enable\<close>, \<open>getGroup\<close>, \<open>setGroup\<close>, \<open>fire\<close>) is not among the sources. The spec
  says that event firing is synchronous, that a fired event is recorded by the workspace
  (\<open>fireChangeListener\<close>, which is in the sources), and that a group id is attached to
  every event created while a group is open. \<open>disable\<close> and \<open>enable\<close> are called in pairs
  around a region that may call them again (a child's \<open>dispose\<close> inside its parent's), so
  they count depth.\<close>

definition Events_isEnabled :: "state \<Rightarrow> bool" where
  "Events_isEnabled s = (Events_disabled s = 0)"

definition Events_disable :: "state \<Rightarrow> state" where
  "Events_disable s = s\<lparr>Events_disabled := Suc (Events_disabled s)\<rparr>"

definition Events_enable :: "state \<Rightarrow> state" where
  "Events_enable s = s\<lparr>Events_disabled := Events_disabled s - 1\<rparr>"

definition Events_fire :: "state \<Rightarrow> event \<Rightarrow> state" where
  "Events_fire s ev =
     (if Events_isEnabled s then fireChangeListener (s\<lparr>calls := calls s @ [Fired ev]\<rparr>) ev
      else s)"

text \<open>The constructor of \<open>Blockly.Events.Abstract\<close> (in the sources) sets \<open>group\<close> and
  \<open>recordUndo\<close>; the block events add the id of their block.\<close>

definition new_event :: "state \<Rightarrow> event_type \<Rightarrow> bref \<Rightarrow> event" where
  "new_event s ty b =
     \<lparr>event_type = ty, blockId = block_id (blocks s b), group = Events_group s,
      recordUndo = Events_recordUndo s, isNull = False\<rparr>"

subsection \<open>Blockly.Connection\<close>

text \<open>Modelled from the spec: core/connection.js is not among the sources. The spec gives a
  connection an owner, a kind, a nullable set of type tags (\<open>checks\<close>; null accepts any)
  and a target. Two connections are type-compatible when their checks intersect or either
  side is unconstrained; value joins value and statement-previous joins statement-next.
  \<open>connect\<close> fails with a ConnectionError otherwise, and on success sets the target on both
  sides and reparents the owning blocks through \<open>setParent\<close>. \<open>disconnect\<close> is a no-op when
  not connected; otherwise it clears the target on both sides and reparents the former
  child to null. \<open>setCheck\<close> replaces the filter and first severs a connection the new
  filter makes incompatible. A disposed connection is marked (the spec's tombstone). Every
  structural mutation constructs and fires an event, and a Move event records the old and
  new parent connection of a block: a \<open>connect\<close> or \<open>disconnect\<close> that has changed the
  graph fires a Move event for the child block.\<close>

definition isConnected :: "state \<Rightarrow> cref \<Rightarrow> bool" where
  "isConnected s c = (targetConnection (conns s c) \<noteq> None)"

definition targetBlock :: "state \<Rightarrow> cref \<Rightarrow> bref option" where
  "targetBlock s c =
     (case targetConnection (conns s c) of
        None \<Rightarrow> None
      | Some t \<Rightarrow> Some (sourceBlock (conns s t)))"

definition isSuperior :: "state \<Rightarrow> cref \<Rightarrow> bool" where
  "isSuperior s c =
     (conn_type (conns s c) = INPUT_VALUE \<or> conn_type (conns s c) = NEXT_STATEMENT)"

fun checks_compatible :: "string list option \<Rightarrow> string list option \<Rightarrow> bool" where
  "checks_compatible None y = True"
| "checks_compatible (Some xs) None = True"
| "checks_compatible (Some xs) (Some ys) = (filter (\<lambda>x. x \<in> set ys) xs \<noteq> [])"

definition checkType :: "state \<Rightarrow> cref \<Rightarrow> cref \<Rightarrow> bool" where
  "checkType s a b = checks_compatible (check (conns s a)) (check (conns s b))"

fun kinds_join :: "conn_type \<Rightarrow> conn_type \<Rightarrow> bool" where
  "kinds_join INPUT_VALUE OUTPUT_VALUE = True"
| "kinds_join OUTPUT_VALUE INPUT_VALUE = True"
| "kinds_join NEXT_STATEMENT PREVIOUS_STATEMENT = True"
| "kinds_join PREVIOUS_STATEMENT NEXT_STATEMENT = True"
| "kinds_join x y = False"

definition conn_dispose :: "state \<Rightarrow> cref \<Rightarrow> state" where
  "conn_dispose s c = upd_conn c (\<lambda>x. x\<lparr>conn_disposed := True\<rparr>) s"

text \<open>\<open>makeConnection_\<close> of block.js: \<open>new Blockly.Connection(this, type)\<close>. The new object
  takes the next free reference; as the spec describes a connection, it starts with its
  owner and kind, no type constraint and no target.\<close>

definition makeConnection :: "state \<Rightarrow> bref \<Rightarrow> conn_type \<Rightarrow> cref \<times> state" where
  "makeConnection s b ty =
     (nextConnRef s,
      s\<lparr>conns := (conns s)(nextConnRef s :=
           \<lparr>sourceBlock = b, conn_type = ty, check = None, targetConnection = None,
            conn_disposed = False\<rparr>),
        nextConnRef := Suc (nextConnRef s)\<rparr>)"

subsection \<open>Block: parent and children\<close>

text \<open>\<open>Blockly.Block.prototype.setParent\<close>. Calling a method of \<open>this.workspace\<close> when it
  is null is a TypeError.\<close>

definition setParent :: "state \<Rightarrow> bref \<Rightarrow> bref option \<Rightarrow> outcome" where
  "setParent s b newParent =
     (if newParent = parentBlock (blocks s b) then Normal s
      else
        and_then
          (case parentBlock (blocks s b) of
             Some p \<Rightarrow>
               (let s1 = upd_block p (\<lambda>x. x\<lparr>childBlocks := remove1 b (childBlocks x)\<rparr>) s
                in if (case previousConnection (blocks s1 b) of
                         None \<Rightarrow> False | Some c \<Rightarrow> isConnected s1 c)
                   then Thrown StillConnectedToPrevious s1
                   else if (case outputConnection (blocks s1 b) of
                              None \<Rightarrow> False | Some c \<Rightarrow> isConnected s1 c)
                   then Thrown StillConnectedToParent s1
                   else Normal (upd_block b (\<lambda>x. x\<lparr>parentBlock := None\<rparr>) s1))
           | None \<Rightarrow>
               (if workspace (blocks s b) then removeTopBlock s b else Thrown TypeError s))
          (\<lambda>s2.
             let s3 = upd_block b (\<lambda>x. x\<lparr>parentBlock := newParent\<rparr>) s2
             in case newParent of
                  Some q \<Rightarrow> Normal (upd_block q (\<lambda>x. x\<lparr>childBlocks := childBlocks x @ [b]\<rparr>) s3)
                | None \<Rightarrow>
                    (if workspace (blocks s3 b) then Normal (addTopBlock s3 b)
                     else Thrown TypeError s3)))"

text \<open>Modelled from the spec: \<open>Connection.disconnect\<close>, \<open>connect\<close> and \<open>setCheck\<close> (see
  above). The child is the owner of the inferior (output or previous) end. \<open>fire_move\<close> is
  the Move event of the child, fired once the graph has changed (\<open>Events_fire\<close> does nothing
  while events are disabled).\<close>

definition fire_move :: "state \<Rightarrow> bref \<Rightarrow> state" where
  "fire_move s child = Events_fire s (new_event s MOVE child)"

definition disconnect :: "state \<Rightarrow> cref \<Rightarrow> outcome" where
  "disconnect s c =
     (case targetConnection (conns s c) of
        None \<Rightarrow> Normal s
      | Some t \<Rightarrow>
          (let child = (if isSuperior s c then sourceBlock (conns s t)
                        else sourceBlock (conns s c));
               s1 = upd_conn c (\<lambda>x. x\<lparr>targetConnection := None\<rparr>)
                      (upd_conn t (\<lambda>x. x\<lparr>targetConnection := None\<rparr>) s)
           in and_then (setParent s1 child None) (\<lambda>s2. Normal (fire_move s2 child))))"

definition connect :: "state \<Rightarrow> cref \<Rightarrow> cref \<Rightarrow> outcome" where
  "connect s c other =
     (if \<not> kinds_join (conn_type (conns s c)) (conn_type (conns s other))
         \<or> \<not> checkType s c other
      then Thrown ConnectionError s
      else
        (let parentC = (if isSuperior s c then c else other);
             childC = (if isSuperior s c then other else c);
             s1 = upd_conn c (\<lambda>x. x\<lparr>targetConnection := Some other\<rparr>)
                    (upd_conn other (\<lambda>x. x\<lparr>targetConnection := Some c\<rparr>) s)
         in and_then (setParent s1 (sourceBlock (conns s1 childC))
                        (Some (sourceBlock (conns s1 parentC))))
              (\<lambda>s2. Normal (fire_move s2 (sourceBlock (conns s1 childC))))))"

definition setCheck :: "state \<Rightarrow> cref \<Rightarrow> string list option \<Rightarrow> outcome" where
  "setCheck s c chk =
     and_then
       (case targetConnection (conns s c) of
          None \<Rightarrow> Normal s
        | Some t \<Rightarrow>
            (if checks_compatible chk (check (conns s t)) then Normal s
             else disconnect s c))
       (\<lambda>s1. Normal (upd_conn c (\<lambda>x. x\<lparr>check := chk\<rparr>) s1))"

definition getNextBlock :: "state \<Rightarrow> bref \<Rightarrow> bref option" where
  "getNextBlock s b =
     (case nextConnection (blocks s b) of None \<Rightarrow> None | Some c \<Rightarrow> targetBlock s c)"

definition getChildren :: "state \<Rightarrow> bref \<Rightarrow> bref list" where
  "getChildren s b = childBlocks (blocks s b)"

text \<open>\<open>getInputTargetBlock\<close>: \<open>input && input.connection && input.connection.targetBlock()\<close>.\<close>

definition getInputTargetBlock :: "state \<Rightarrow> bref \<Rightarrow> string \<Rightarrow> bref option" where
  "getInputTargetBlock s b n =
     (case getInput s b n of
        None \<Rightarrow> None
      | Some i \<Rightarrow> (case connection i of None \<Rightarrow> None | Some c \<Rightarrow> targetBlock s c))"

text \<open>\<open>Blockly.Block.prototype.unplug\<close>. When \<open>getNextBlock\<close> returned a block, the next
  connection and its target exist; reading them otherwise would be a TypeError.\<close>

definition unplug :: "state \<Rightarrow> bref \<Rightarrow> bool \<Rightarrow> outcome" where
  "unplug s b opt_healStack =
     (case outputConnection (blocks s b) of
        Some oc \<Rightarrow> (if isConnected s oc then disconnect s oc else Normal s)
      | None \<Rightarrow>
          (case previousConnection (blocks s b) of
             None \<Rightarrow> Normal s
           | Some pc \<Rightarrow>
               (let previousTarget =
                      (if isConnected s pc then targetConnection (conns s pc) else None)
                in and_then (if isConnected s pc then disconnect s pc else Normal s)
                     (\<lambda>s1.
                        case getNextBlock s1 b of
                          None \<Rightarrow> Normal s1
                        | Some nextBlock \<Rightarrow>
                            (if opt_healStack then
                               (case nextConnection (blocks s1 b) of
                                  None \<Rightarrow> Thrown TypeError s1
                                | Some nc \<Rightarrow>
                                    (case targetConnection (conns s1 nc) of
                                       None \<Rightarrow> Thrown TypeError s1
                                     | Some nextTarget \<Rightarrow>
                                         and_then (disconnect s1 nextTarget)
                                           (\<lambda>s2.
                                              case previousTarget of
                                                None \<Rightarrow> Normal s2
                                              | Some pt \<Rightarrow>
                                                  (if checkType s2 pt nextTarget
                                                   then connect s2 pt nextTarget
                                                   else Normal s2))))
                             else Normal s1)))))"

text \<open>\<open>getConnections_\<close>: output, previous, next, then the inputs' connections.\<close>

definition getConnections :: "state \<Rightarrow> bref \<Rightarrow> cref list" where
  "getConnections s b =
     (case outputConnection (blocks s b) of None \<Rightarrow> [] | Some c \<Rightarrow> [c])
     @ (case previousConnection (blocks s b) of None \<Rightarrow> [] | Some c \<Rightarrow> [c])
     @ (case nextConnection (blocks s b) of None \<Rightarrow> [] | Some c \<Rightarrow> [c])
     @ concat (map (\<lambda>i. case connection i of None \<Rightarrow> [] | Some c \<Rightarrow> [c])
                 (inputList (blocks s b)))"



subsection \<open>Block: shaping a block\<close>

text \<open>\<open>goog.asserts.assert\<close> throws an AssertionError when its condition is false. A check
  argument that is undefined is replaced by null (\<open>None\<close>) before it is used.\<close>

definition setPreviousStatement :: "state \<Rightarrow> bref \<Rightarrow> bool \<Rightarrow> string list option \<Rightarrow> outcome" where
  "setPreviousStatement s b newBoolean opt_check =
     (if newBoolean then
        (case previousConnection (blocks s b) of
           None \<Rightarrow>
             (if outputConnection (blocks s b) \<noteq> None then Thrown AssertionError s
              else
                (let (c, s1) = makeConnection s b PREVIOUS_STATEMENT;
                     s2 = upd_block b (\<lambda>x. x\<lparr>previousConnection := Some c\<rparr>) s1
                 in setCheck s2 c opt_check))
         | Some c \<Rightarrow> setCheck s c opt_check)
      else
        (case previousConnection (blocks s b) of
           None \<Rightarrow> Normal s
         | Some c \<Rightarrow>
             (if isConnected s c then Thrown AssertionError s
              else Normal (upd_block b (\<lambda>x. x\<lparr>previousConnection := None\<rparr>)
                             (conn_dispose s c)))))"

definition setNextStatement :: "state \<Rightarrow> bref \<Rightarrow> bool \<Rightarrow> string list option \<Rightarrow> outcome" where
  "setNextStatement s b newBoolean opt_check =
     (if newBoolean then
        (case nextConnection (blocks s b) of
           None \<Rightarrow>
             (let (c, s1) = makeConnection s b NEXT_STATEMENT;
                  s2 = upd_block b (\<lambda>x. x\<lparr>nextConnection := Some c\<rparr>) s1
              in setCheck s2 c opt_check)
         | Some c \<Rightarrow> setCheck s c opt_check)
      else
        (case nextConnection (blocks s b) of
           None \<Rightarrow> Normal s
         | Some c \<Rightarrow>
             (if isConnected s c then Thrown AssertionError s
              else Normal (upd_block b (\<lambda>x. x\<lparr>nextConnection := None\<rparr>)
                             (conn_dispose s c)))))"

definition setOutput :: "state \<Rightarrow> bref \<Rightarrow> bool \<Rightarrow> string list option \<Rightarrow> outcome" where
  "setOutput s b newBoolean opt_check =
     (if newBoolean then
        (case outputConnection (blocks s b) of
           None \<Rightarrow>
             (if previousConnection (blocks s b) \<noteq> None then Thrown AssertionError s
              else
                (let (c, s1) = makeConnection s b OUTPUT_VALUE;
                     s2 = upd_block b (\<lambda>x. x\<lparr>outputConnection := Some c\<rparr>) s1
                 in setCheck s2 c opt_check))
         | Some c \<Rightarrow> setCheck s c opt_check)
      else
        (case outputConnection (blocks s b) of
           None \<Rightarrow> Normal s
         | Some c \<Rightarrow>
             (if isConnected s c then Thrown AssertionError s
              else Normal (upd_block b (\<lambda>x. x\<lparr>outputConnection := None\<rparr>)
                             (conn_dispose s c)))))"

text \<open>\<open>appendInput_\<close>: a value or statement input gets a connection of its own type, a dummy
  input gets none. The constructor of \<open>Blockly.Input\<close> stores its four arguments and starts
  with an empty field row.\<close>

definition appendInput :: "state \<Rightarrow> bref \<Rightarrow> conn_type \<Rightarrow> string \<Rightarrow> state" where
  "appendInput s b ty n =
     (if ty = INPUT_VALUE \<or> ty = NEXT_STATEMENT then
        (let (c, s1) = makeConnection s b ty
         in upd_block b (\<lambda>x. x\<lparr>inputList := inputList x @
              [\<lparr>input_type = ty, input_name = n, connection = Some c, fieldRow = []\<rparr>]\<rparr>) s1)
      else
        upd_block b (\<lambda>x. x\<lparr>inputList := inputList x @
              [\<lparr>input_type = ty, input_name = n, connection = None, fieldRow = []\<rparr>]\<rparr>) s)"

subsection \<open>Block: dispose\<close>

text \<open>Modelled from the spec: \<open>Blockly.Input.prototype.dispose\<close> is not among the sources. An
  input owns at most one connection, and a connection does not outlive its owner: disposing
  the input disposes that connection.\<close>

definition input_dispose :: "state \<Rightarrow> input \<Rightarrow> state" where
  "input_dispose s i = (case connection i of None \<Rightarrow> s | Some c \<Rightarrow> conn_dispose s c)"

definition dispose_inputs :: "state \<Rightarrow> bref \<Rightarrow> state" where
  "dispose_inputs s b =
     (let s1 = foldl input_dispose s (inputList (blocks s b));
          s2 = upd_block b (\<lambda>x. x\<lparr>inputList := []\<rparr>) s1
      in s2\<lparr>calls := calls s2 @ [DisposedInputs b]\<rparr>)"

fun dispose_connections_loop :: "state \<Rightarrow> cref list \<Rightarrow> outcome" where
  "dispose_connections_loop s [] = Normal s"
| "dispose_connections_loop s (c # cs) =
     and_then (if isConnected s c then disconnect s c else Normal s)
       (\<lambda>s1. dispose_connections_loop (conn_dispose s1 c) cs)"

definition dispose_connections :: "state \<Rightarrow> bref \<Rightarrow> outcome" where
  "dispose_connections s b =
     and_then (dispose_connections_loop s (getConnections s b))
       (\<lambda>s1. Normal (s1\<lparr>calls := calls s1 @ [DisposedConnections b]\<rparr>))"

text \<open>The first statements of the \<open>try\<close> block: leave the list of top blocks and the block
  database, and forget the workspace.\<close>

definition deregister :: "state \<Rightarrow> bref \<Rightarrow> outcome" where
  "deregister s b =
     (if workspace (blocks s b) then
        and_then (removeTopBlock s b)
          (\<lambda>s1.
             let s2 = s1\<lparr>blockDB := (blockDB s1)(block_id (blocks s1 b) := None)\<rparr>;
                 s3 = upd_block b (\<lambda>x. x\<lparr>workspace := False\<rparr>) s2
             in Normal (s3\<lparr>calls := calls s3 @ [Deregistered b]\<rparr>))
      else Normal s)"

text \<open>\<open>Blockly.Block.prototype.dispose\<close>. The first argument bounds the depth of the
  recursion into the children (\<open>None\<close>: the bound was too small). \<open>dispose_children n s b i\<close>
  is the loop \<open>for (var i = this.childBlocks_.length - 1; i >= 0; i--)\<close> with \<open>i\<close> iterations
  left; it reads \<open>this.childBlocks_[i]\<close> from the current store, and calling \<open>dispose\<close> on an
  undefined element is a TypeError.\<close>

fun dispose :: "nat \<Rightarrow> state \<Rightarrow> bref \<Rightarrow> bool \<Rightarrow> outcome option"
  and dispose_children :: "nat \<Rightarrow> state \<Rightarrow> bref \<Rightarrow> nat \<Rightarrow> outcome option" where
  "dispose 0 s b healStack = None"
| "dispose (Suc n) s b healStack =
     (if \<not> workspace (blocks s b) then Some (Normal s)
      else
        (case unplug s b healStack of
           Thrown e s1 \<Rightarrow> Some (Thrown e s1)
         | Normal s1 \<Rightarrow>
             (let s2 = (if Events_isEnabled s1 then Events_fire s1 (new_event s1 DELETE b)
                        else s1);
                  s3 = Events_disable s2
              in case deregister s3 b of
                   Thrown e s4 \<Rightarrow> Some (Thrown e (Events_enable s4))
                 | Normal s4 \<Rightarrow>
                     (case dispose_children n s4 b (length (childBlocks (blocks s4 b))) of
                        None \<Rightarrow> None
                      | Some (Thrown e s5) \<Rightarrow> Some (Thrown e (Events_enable s5))
                      | Some (Normal s5) \<Rightarrow>
                          Some (try_finally (dispose_connections (dispose_inputs s5 b) b)
                                  Events_enable)))))"
| "dispose_children n s b 0 = Some (Normal s)"
| "dispose_children n s b (Suc i) =
     (if i < length (childBlocks (blocks s b)) then
        (case dispose n s (childBlocks (blocks s b) ! i) False of
           None \<Rightarrow> None
         | Some (Thrown e s1) \<Rightarrow> Some (Thrown e s1)
         | Some (Normal s1) \<Rightarrow> dispose_children n s1 b i)
      else Some (Thrown TypeError s))"

subsection \<open>Block: construction\<close>

text \<open>\<open>Blockly.Blocks\<close>, the table of block definitions, and \<open>Blockly.utils.genUid\<close> are not
  among the sources; both are parameters. A definition's \<open>init\<close> function is given by the
  calls it makes on the new block, in order; \<open>genUid\<close> is the sequence of ids it returns.\<close>

datatype init_op =
    SetOutput bool "string list option"
  | SetPreviousStatement bool "string list option"
  | SetNextStatement bool "string list option"
  | AppendValueInput string
  | AppendStatementInput string
  | AppendDummyInput string

fun init_step :: "state \<Rightarrow> bref \<Rightarrow> init_op \<Rightarrow> outcome" where
  "init_step s b (SetOutput nb chk) = setOutput s b nb chk"
| "init_step s b (SetPreviousStatement nb chk) = setPreviousStatement s b nb chk"
| "init_step s b (SetNextStatement nb chk) = setNextStatement s b nb chk"
| "init_step s b (AppendValueInput n) = Normal (appendInput s b INPUT_VALUE n)"
| "init_step s b (AppendStatementInput n) = Normal (appendInput s b NEXT_STATEMENT n)"
| "init_step s b (AppendDummyInput n) = Normal (appendInput s b DUMMY_INPUT n)"

fun run_init :: "state \<Rightarrow> bref \<Rightarrow> init_op list \<Rightarrow> outcome" where
  "run_init s b [] = Normal s"
| "run_init s b (x # xs) = and_then (init_step s b x) (\<lambda>s1. run_init s1 b xs)"

text \<open>Modelled from the spec: \<open>Blockly.Events.setGroup\<close>. \<open>setGroup(true)\<close> opens a group
  with a new id, \<open>setGroup(false)\<close> closes it.\<close>

definition Events_setGroup :: "(nat \<Rightarrow> string) \<Rightarrow> state \<Rightarrow> bool \<Rightarrow> state" where
  "Events_setGroup genUid s on =
     (if on then s\<lparr>Events_group := genUid (uidCount s), uidCount := Suc (uidCount s)\<rparr>
      else s\<lparr>Events_group := []\<rparr>)"

definition fire_create :: "(nat \<Rightarrow> string) \<Rightarrow> state \<Rightarrow> bref \<Rightarrow> state" where
  "fire_create genUid s b =
     (if Events_isEnabled s then
        (if Events_group s = [] then
           (let s1 = Events_setGroup genUid s True;
                s2 = Events_fire s1 (new_event s1 CREATE b)
            in Events_setGroup genUid s2 False)
         else Events_fire s (new_event s CREATE b))
      else s)"

text \<open>The constructor \<open>Blockly.Block\<close>. The new object takes the next free block reference,
  \<open>nextBlockRef s\<close>. The id is \<open>(opt_id && !workspace.getBlockById(opt_id)) ? opt_id : genUid()\<close>;
  the block is stored in \<open>blockDB_\<close> before its type is looked up, and added to the top
  blocks after (\<open>goog.asserts.assertObject\<close> throws for an unknown type); then \<open>init\<close> runs
  and the Create event is fired. \<open>Block_fields\<close> is the first part: the id, the entry in
  \<open>blockDB_\<close> and the initial values of the fields.\<close>

definition Block_id :: "(nat \<Rightarrow> string) \<Rightarrow> state \<Rightarrow> string option \<Rightarrow> string" where
  "Block_id genUid s opt_id =
     (case opt_id of
        None \<Rightarrow> genUid (uidCount s)
      | Some i \<Rightarrow> (if i \<noteq> [] \<and> getBlockById s i = None then i else genUid (uidCount s)))"

definition Block_uses_genUid :: "state \<Rightarrow> string option \<Rightarrow> bool" where
  "Block_uses_genUid s opt_id =
     (case opt_id of
        None \<Rightarrow> True
      | Some i \<Rightarrow> \<not> (i \<noteq> [] \<and> getBlockById s i = None))"

definition Block_fields :: "(nat \<Rightarrow> string) \<Rightarrow> state \<Rightarrow> string option \<Rightarrow> state" where
  "Block_fields genUid s opt_id =
     s\<lparr>nextBlockRef := Suc (nextBlockRef s),
       uidCount := (if Block_uses_genUid s opt_id then Suc (uidCount s) else uidCount s),
       blockDB := (blockDB s)(Block_id genUid s opt_id := Some (nextBlockRef s)),
       blocks := (blocks s)(nextBlockRef s :=
         \<lparr>block_id = Block_id genUid s opt_id, block_type = None, outputConnection = None,
          nextConnection = None, previousConnection = None, inputList = [],
          parentBlock = None, childBlocks = [], workspace = True\<rparr>)\<rparr>"

definition Block :: "(nat \<Rightarrow> string) \<Rightarrow> (string \<Rightarrow> init_op list option) \<Rightarrow> state \<Rightarrow>
    string option \<Rightarrow> string option \<Rightarrow> outcome" where
  "Block genUid Blocks s prototypeName opt_id =
     (let b = nextBlockRef s;
          s1 = Block_fields genUid s opt_id
      in case (if truthy prototypeName then prototypeName else None) of
           Some n \<Rightarrow>
             (let s2 = upd_block b (\<lambda>x. x\<lparr>block_type := Some n\<rparr>) s1
              in case Blocks n of
                   None \<Rightarrow> Thrown AssertionError s2
                 | Some ops \<Rightarrow>
                     and_then (run_init (addTopBlock s2 b) b ops)
                       (\<lambda>s3. Normal (fire_create genUid s3 b)))
         | None \<Rightarrow> Normal (fire_create genUid (addTopBlock s1 b) b))"

definition newBlock :: "(nat \<Rightarrow> string) \<Rightarrow> (string \<Rightarrow> init_op list option) \<Rightarrow> state \<Rightarrow>
    string option \<Rightarrow> string option \<Rightarrow> outcome" where
  "newBlock genUid Blocks s prototypeName opt_id = Block genUid Blocks s prototypeName opt_id"

subsection \<open>Workspace: undo and redo\<close>

text \<open>A stack is a JavaScript array used with \<open>push\<close> and \<open>pop\<close>: its top is the last
  element. \<open>undo_collect\<close> is the loop
  \<open>while (inputStack.length && inputEvent.group && inputEvent.group == top.group)\<close>.\<close>

function undo_collect :: "event \<Rightarrow> event list \<Rightarrow> event list \<Rightarrow> event list \<times> event list" where
  "undo_collect inputEvent inputStack events =
     (if inputStack \<noteq> [] \<and> group inputEvent \<noteq> []
         \<and> group inputEvent = group (last inputStack)
      then undo_collect inputEvent (butlast inputStack) (events @ [last inputStack])
      else (inputStack, events))"
  by pat_completeness auto
termination
  by (relation "measure (\<lambda>(e, st, evs). length st)") auto

declare undo_collect.simps [simp del]

text \<open>\<open>Blockly.Events.filter\<close> and the \<open>run\<close> methods of the event subclasses are not among
  the sources; both are parameters of \<open>undo\<close>. Every call of \<open>run\<close> is recorded with the
  direction it was given and the value \<open>Blockly.Events.recordUndo\<close> had at the call.\<close>

fun run_events :: "(event \<Rightarrow> bool \<Rightarrow> state \<Rightarrow> outcome) \<Rightarrow> bool \<Rightarrow> state \<Rightarrow> event list \<Rightarrow> outcome" where
  "run_events run redo s [] = Normal s"
| "run_events run redo s (e # es) =
     and_then (run e redo (s\<lparr>calls := calls s @ [Ran e redo (Events_recordUndo s)]\<rparr>))
       (\<lambda>s1. run_events run redo s1 es)"

definition undo :: "(event list \<Rightarrow> bool \<Rightarrow> event list) \<Rightarrow> (event \<Rightarrow> bool \<Rightarrow> state \<Rightarrow> outcome) \<Rightarrow>
    state \<Rightarrow> bool \<Rightarrow> outcome" where
  "undo filter_events run s redo =
     (let inputStack = (if redo then redoStack s else undoStack s);
          outputStack = (if redo then undoStack s else redoStack s)
      in if inputStack = [] then Normal s
         else
           (let inputEvent = last inputStack;
                (inputStack1, events) = undo_collect inputEvent (butlast inputStack) [inputEvent];
                outputStack1 = outputStack @ events;
                s1 = (if redo then s\<lparr>redoStack := inputStack1, undoStack := outputStack1\<rparr>
                      else s\<lparr>undoStack := inputStack1, redoStack := outputStack1\<rparr>);
                events1 = filter_events events redo;
                s2 = s1\<lparr>Events_recordUndo := False\<rparr>
            in try_finally (run_events run redo s2 events1)
                 (\<lambda>s3. s3\<lparr>Events_recordUndo := True\<rparr>)))"


text \<open>\<open>Blockly.Events.Abstract.prototype.run\<close> has an empty body (subclasses define it).\<close>

definition Abstract_run :: "event \<Rightarrow> bool \<Rightarrow> state \<Rightarrow> outcome" where
  "Abstract_run e forward s = Normal s"

subsection \<open>A new workspace\<close>

text \<open>The constructor \<open>Blockly.Workspace\<close>: no top blocks, empty stacks, an empty block
  database; \<open>MAX_UNDO\<close> is 1024 on the prototype. No object is allocated yet; a reference
  that was never allocated reads as \<open>no_block\<close> or \<open>no_connection\<close>. Events start enabled,
  recorded for undo, and outside any group (the initial values of \<open>Blockly.Events\<close> are not
  among the sources).\<close>

definition no_block :: block where
  "no_block =
     \<lparr>block_id = [], block_type = None, outputConnection = None, nextConnection = None,
      previousConnection = None, inputList = [], parentBlock = None, childBlocks = [],
      workspace = False\<rparr>"

definition no_connection :: connection where
  "no_connection =
     \<lparr>sourceBlock = 0, conn_type = DUMMY_INPUT, check = None, targetConnection = None,
      conn_disposed = True\<rparr>"

definition new_Workspace :: state where
  "new_Workspace =
     \<lparr>blocks = (\<lambda>b. no_block), conns = (\<lambda>c. no_connection), nextBlockRef = 0,
      nextConnRef = 0, topBlocks = [], blockDB = (\<lambda>i. None), undoStack = [], redoStack = [],
      MAX_UNDO = 1024, Events_recordUndo = True, Events_disabled = 0, Events_group = [],
      uidCount = 0, calls = []\<rparr>"

section \<open>What the specification says, in its own terms\<close>



text \<open>The batch \<open>undo\<close> moves: the top event of the source stack, then the events
  immediately below it that share its group id, when that id is not empty. \<open>undo_rest\<close> is
  what stays on the source stack.\<close>

definition same_group :: "event \<Rightarrow> event \<Rightarrow> bool" where
  "same_group e x = (group e \<noteq> [] \<and> group e = group x)"

definition undo_batch :: "event list \<Rightarrow> event list" where
  "undo_batch st = last st # takeWhile (same_group (last st)) (rev (butlast st))"

definition undo_rest :: "event list \<Rightarrow> event list" where
  "undo_rest st = rev (dropWhile (same_group (last st)) (rev (butlast st)))"

definition source_stack :: "state \<Rightarrow> bool \<Rightarrow> event list" where
  "source_stack s redo = (if redo then redoStack s else undoStack s)"

definition opposite_stack :: "state \<Rightarrow> bool \<Rightarrow> event list" where
  "opposite_stack s redo = (if redo then undoStack s else redoStack s)"

definition with_stacks :: "state \<Rightarrow> bool \<Rightarrow> event list \<Rightarrow> event list \<Rightarrow> state" where
  "with_stacks s redo src opp =
     (if redo then s\<lparr>redoStack := src, undoStack := opp\<rparr>
      else s\<lparr>undoStack := src, redoStack := opp\<rparr>)"

text \<open>The replay of a list of events: \<open>run(redo)\<close> is called on each event in turn, from
  the store the previous call has left, until a call throws; \<open>note_run\<close> is the entry
  made in the log for one call, and \<open>runs_of\<close> are the entries of the log made for calls of
  \<open>run\<close>.\<close>

definition note_run :: "event \<Rightarrow> bool \<Rightarrow> state \<Rightarrow> state" where
  "note_run e redo t = t\<lparr>calls := calls t @ [Ran e redo (Events_recordUndo t)]\<rparr>"

definition replay :: "(event \<Rightarrow> bool \<Rightarrow> state \<Rightarrow> outcome) \<Rightarrow> bool \<Rightarrow> state \<Rightarrow> event list \<Rightarrow> outcome" where
  "replay run redo s evs =
     foldl (\<lambda>r e. and_then r (\<lambda>t. run e redo (note_run e redo t))) (Normal s) evs"

fun is_Ran :: "call \<Rightarrow> bool" where
  "is_Ran (Ran e f r) = True"
| "is_Ran x = False"

definition runs_of :: "state \<Rightarrow> call list" where
  "runs_of s = filter is_Ran (calls s)"






section \<open>Example stores\<close>

text \<open>A block table with a statement block (\<open>stmt\<close>: previous and next connection, any
  type), a value block (\<open>num\<close>: an output of type Number) and an ill-formed definition
  (\<open>both\<close>) that asks for an output and a previous connection; and a generator of ids.\<close>

definition example_Blocks :: "string \<Rightarrow> init_op list option" where
  "example_Blocks n =
     (if n = ''stmt'' then Some [SetPreviousStatement True None, SetNextStatement True None]
      else if n = ''num'' then Some [SetOutput True (Some [''Number''])]
      else if n = ''both'' then Some [SetOutput True None, SetPreviousStatement True None]
      else None)"

definition example_genUid :: "nat \<Rightarrow> string" where
  "example_genUid n = CHR ''u'' # replicate n (CHR ''x'')"

text \<open>Three statement blocks P, Q, R (references 0, 1, 2; their previous connections are
  0, 2, 4 and their next connections 1, 3, 5), then stacked: P's next to Q's previous, Q's
  next to R's previous.\<close>

definition three_blocks :: state where
  "three_blocks =
     state_of (newBlock example_genUid example_Blocks
       (state_of (newBlock example_genUid example_Blocks
          (state_of (newBlock example_genUid example_Blocks new_Workspace
             (Some ''stmt'') (Some ''P'')))
          (Some ''stmt'') (Some ''Q'')))
       (Some ''stmt'') (Some ''R''))"

definition stack_PQR :: state where
  "stack_PQR = state_of (connect (state_of (connect three_blocks 1 2)) 3 4)"

text \<open>Q's previous connection is attached to P's next connection, but Q has not been given
  its parent yet: the store \<open>connect\<close> is in when it calls \<open>setParent\<close>.\<close>

definition attached_no_parent :: state where
  "attached_no_parent =
     upd_conn 1 (\<lambda>x. x\<lparr>targetConnection := Some 2\<rparr>)
       (upd_conn 2 (\<lambda>x. x\<lparr>targetConnection := Some 1\<rparr>) three_blocks)"

text \<open>Q has been made a child of P by \<open>setParent\<close> alone: its connections are attached to
  nothing.\<close>

definition child_unattached :: state where
  "child_unattached = state_of (setParent three_blocks 1 (Some 0))"



text \<open>A block with one input named A that holds one field named F.\<close>

definition one_field :: state where
  "one_field =
     upd_block 0 (\<lambda>x. x\<lparr>inputList :=
        [\<lparr>input_type = DUMMY_INPUT, input_name = ''A'', connection = None,
          fieldRow = [\<lparr>field_name = Some ''F'', field_value = ''v''\<rparr>]\<rparr>]\<rparr>)
       (state_of (newBlock example_genUid example_Blocks new_Workspace None (Some ''b'')))"

text \<open>Events for the undo stack: two of group g, one of group h, one outside any group, and
  one that reports itself null.\<close>

definition ev :: "string \<Rightarrow> string \<Rightarrow> event" where
  "ev i g = \<lparr>event_type = CHANGE, blockId = i, group = g, recordUndo = True, isNull = False\<rparr>"

definition null_ev :: event where
  "null_ev = \<lparr>event_type = CHANGE, blockId = ''n'', group = [], recordUndo = True, isNull = True\<rparr>"

text \<open>Modelled from the spec: \<open>Blockly.Events.filter\<close> is not among the sources. The one
  thing the spec says about filtering events is that an event that reports \<open>isNull()\<close> is
  discarded: this is \<open>drop_null\<close>. \<open>keep_all\<close> is the filter that returns its argument.\<close>

definition keep_all :: "event list \<Rightarrow> bool \<Rightarrow> event list" where
  "keep_all evs forward = evs"

definition drop_null :: "event list \<Rightarrow> bool \<Rightarrow> event list" where
  "drop_null evs forward = filter (\<lambda>e. \<not> isNull e) evs"

text \<open>A workspace on which four events have been recorded, and one on which a null event
  has been recorded (\<open>fireChangeListener\<close> does not look at \<open>isNull\<close>).\<close>

definition four_events :: state where
  "four_events =
     new_Workspace\<lparr>undoStack := [ev ''a'' ''h'', ev ''b'' [], ev ''c'' ''g'', ev ''d'' ''g'']\<rparr>"

definition null_recorded :: state where
  "null_recorded = fireChangeListener new_Workspace null_ev"

text \<open>P, Q, R are three blocks stacked through previous and next connections: \<open>pn\<close> is P's
  next connection, \<open>qp\<close> and \<open>qn\<close> are Q's previous and next connections, \<open>rp\<close> is R's
  previous connection; \<open>pn\<close> is attached to \<open>qp\<close> and \<open>qn\<close> to \<open>rp\<close>, Q is a child of P and R a
  child of Q, and Q and R are on the workspace.\<close>

definition stack_of_three ::
  "state \<Rightarrow> bref \<Rightarrow> bref \<Rightarrow> bref \<Rightarrow> cref \<Rightarrow> cref \<Rightarrow> cref \<Rightarrow> cref \<Rightarrow> bool" where
  "stack_of_three s P Q R pn qp qn rp =
     (distinct [P, Q, R] \<and> distinct [pn, qp, qn, rp] \<and>
      nextConnection (blocks s P) = Some pn \<and>
      outputConnection (blocks s Q) = None \<and>
      previousConnection (blocks s Q) = Some qp \<and>
      nextConnection (blocks s Q) = Some qn \<and>
      outputConnection (blocks s R) = None \<and>
      previousConnection (blocks s R) = Some rp \<and>
      sourceBlock (conns s pn) = P \<and> conn_type (conns s pn) = NEXT_STATEMENT \<and>
      sourceBlock (conns s qp) = Q \<and> conn_type (conns s qp) = PREVIOUS_STATEMENT \<and>
      sourceBlock (conns s qn) = Q \<and> conn_type (conns s qn) = NEXT_STATEMENT \<and>
      sourceBlock (conns s rp) = R \<and> conn_type (conns s rp) = PREVIOUS_STATEMENT \<and>
      targetConnection (conns s pn) = Some qp \<and> targetConnection (conns s qp) = Some pn \<and>
      targetConnection (conns s qn) = Some rp \<and> targetConnection (conns s rp) = Some qn \<and>
      parentBlock (blocks s Q) = Some P \<and> parentBlock (blocks s R) = Some Q \<and>
      workspace (blocks s Q) \<and> workspace (blocks s R))"

text \<open>Two stores that differ at most in the links of the graph (the parent and children of
  blocks, the targets of connections, and the list of top blocks) and in the record of the
  events fired (the log and the undo and redo stacks).\<close>

definition links_only :: "state \<Rightarrow> state \<Rightarrow> bool" where
  "links_only s t =
     ((\<forall>b. block_id (blocks t b) = block_id (blocks s b) \<and>
           block_type (blocks t b) = block_type (blocks s b) \<and>
           outputConnection (blocks t b) = outputConnection (blocks s b) \<and>
           nextConnection (blocks t b) = nextConnection (blocks s b) \<and>
           previousConnection (blocks t b) = previousConnection (blocks s b) \<and>
           inputList (blocks t b) = inputList (blocks s b) \<and>
           workspace (blocks t b) = workspace (blocks s b)) \<and>
      (\<forall>c. sourceBlock (conns t c) = sourceBlock (conns s c) \<and>
           conn_type (conns t c) = conn_type (conns s c) \<and>
           check (conns t c) = check (conns s c) \<and>
           conn_disposed (conns t c) = conn_disposed (conns s c)) \<and>
      nextBlockRef t = nextBlockRef s \<and> nextConnRef t = nextConnRef s \<and>
      blockDB t = blockDB s \<and>
      MAX_UNDO t = MAX_UNDO s \<and> Events_recordUndo t = Events_recordUndo s \<and>
      Events_disabled t = Events_disabled s \<and> Events_group t = Events_group s \<and>
      uidCount t = uidCount s)"

text \<open>Two stores in which every block has the same output and previous connection.\<close>

definition same_ends :: "state \<Rightarrow> state \<Rightarrow> bool" where
  "same_ends s t =
     (\<forall>b. outputConnection (blocks t b) = outputConnection (blocks s b) \<and>
          previousConnection (blocks t b) = previousConnection (blocks s b))"


text \<open>The blocks, connections and Create events of \<open>three_blocks\<close>, written out, and the
  Move event fired when a block is stacked.\<close>

definition block_P :: block where
  "block_P = \<lparr>block_id = ''P'', block_type = Some ''stmt'', outputConnection = None,
     nextConnection = Some 1, previousConnection = Some 0, inputList = [],
     parentBlock = None, childBlocks = [], workspace = True\<rparr>"

definition block_Q :: block where
  "block_Q = \<lparr>block_id = ''Q'', block_type = Some ''stmt'', outputConnection = None,
     nextConnection = Some 3, previousConnection = Some 2, inputList = [],
     parentBlock = None, childBlocks = [], workspace = True\<rparr>"

definition block_R :: block where
  "block_R = \<lparr>block_id = ''R'', block_type = Some ''stmt'', outputConnection = None,
     nextConnection = Some 5, previousConnection = Some 4, inputList = [],
     parentBlock = None, childBlocks = [], workspace = True\<rparr>"

definition free_conn :: "bref \<Rightarrow> conn_type \<Rightarrow> connection" where
  "free_conn b ty = \<lparr>sourceBlock = b, conn_type = ty, check = None,
     targetConnection = None, conn_disposed = False\<rparr>"

definition create_ev :: "string \<Rightarrow> string \<Rightarrow> event" where
  "create_ev i g = \<lparr>event_type = CREATE, blockId = i, group = g, recordUndo = True, isNull = False\<rparr>"

definition move_ev :: "string \<Rightarrow> event" where
  "move_ev i = \<lparr>event_type = MOVE, blockId = i, group = [], recordUndo = True, isNull = False\<rparr>"

definition three_conns :: "cref \<Rightarrow> connection" where
  "three_conns c =
     (if c = 0 then free_conn 0 PREVIOUS_STATEMENT
      else if c = 1 then free_conn 0 NEXT_STATEMENT
      else if c = 2 then free_conn 1 PREVIOUS_STATEMENT
      else if c = 3 then free_conn 1 NEXT_STATEMENT
      else if c = 4 then free_conn 2 PREVIOUS_STATEMENT
      else if c = 5 then free_conn 2 NEXT_STATEMENT
      else no_connection)"

text \<open>The stack P, Q, R with checks that do not match across Q: P's next connection accepts
  only A, R's previous connection only B.\<close>

definition typed_stack :: state where
  "typed_stack =
     state_of (setCheck (state_of (setCheck stack_PQR 1 (Some [''A'']))) 4 (Some [''B'']))"

text \<open>The store after \<open>disconnect\<close> has detached the child \<open>b\<close> (owner of the inferior
  connection \<open>c\<close>, attached to \<open>t\<close>) from its parent \<open>p\<close>, and the store after \<open>connect\<close>
  has attached the top block \<open>b\<close> (owner of \<open>d\<close>) below \<open>p\<close> (owner of \<open>c\<close>); in both the
  Move event of \<open>b\<close> has been fired.\<close>

definition detached :: "state \<Rightarrow> cref \<Rightarrow> cref \<Rightarrow> bref \<Rightarrow> bref \<Rightarrow> state" where
  "detached s c t b p =
     fire_move
       (addTopBlock
          (upd_block b (\<lambda>x. x\<lparr>parentBlock := None\<rparr>)
             (upd_block p (\<lambda>x. x\<lparr>childBlocks := remove1 b (childBlocks x)\<rparr>)
                (upd_conn c (\<lambda>x. x\<lparr>targetConnection := None\<rparr>)
                   (upd_conn t (\<lambda>x. x\<lparr>targetConnection := None\<rparr>) s)))) b) b"

definition attached :: "state \<Rightarrow> cref \<Rightarrow> cref \<Rightarrow> bref \<Rightarrow> bref \<Rightarrow> state" where
  "attached s c d b p =
     fire_move
       (upd_block p (\<lambda>x. x\<lparr>childBlocks := childBlocks x @ [b]\<rparr>)
          (upd_block b (\<lambda>x. x\<lparr>parentBlock := Some p\<rparr>)
             ((upd_conn c (\<lambda>x. x\<lparr>targetConnection := Some d\<rparr>)
                 (upd_conn d (\<lambda>x. x\<lparr>targetConnection := Some c\<rparr>) s))
              \<lparr>topBlocks := remove1 b (topBlocks s)\<rparr>))) b"

text \<open>No block that has forgotten its workspace in \<open>s\<close> has one in \<open>t\<close>.\<close>

definition no_revival :: "state \<Rightarrow> state \<Rightarrow> bool" where
  "no_revival s t = (\<forall>x. workspace (blocks t x) \<longrightarrow> workspace (blocks s x))"

text \<open>The log of \<open>t\<close> extends the log of \<open>s\<close> by Move events only, and by nothing while
  events are disabled.\<close>

fun is_move :: "call \<Rightarrow> bool" where
  "is_move (Fired e) = (event_type e = MOVE)"
| "is_move x = False"

definition moves_only :: "state \<Rightarrow> state \<Rightarrow> bool" where
  "moves_only s t =
     (Events_disabled t = Events_disabled s \<and>
      (\<exists>ms. calls t = calls s @ ms \<and> list_all is_move ms \<and>
            (0 < Events_disabled s \<longrightarrow> ms = [])))"

text \<open>The log of \<open>t\<close> extends the log of \<open>s\<close> by calls among which no event is fired.\<close>

definition quiet :: "state \<Rightarrow> state \<Rightarrow> bool" where
  "quiet s t = (\<exists>ext. calls t = calls s @ ext \<and> (\<forall>e. Fired e \<notin> set ext))"





















text \<open>The store after \<open>P.dispose(false)\<close> on the stack P, Q, R, and the Delete event of P.\<close>

definition delete_P :: event where
  "delete_P = \<lparr>event_type = DELETE, blockId = ''P'', group = [], recordUndo = True, isNull = False\<rparr>"

definition disposed_PQR :: state where
  "disposed_PQR = stack_PQR
     \<lparr>blocks := (\<lambda>b. if b = 0 then block_P\<lparr>workspace := False\<rparr>
                      else if b = 1 then block_Q\<lparr>workspace := False\<rparr>
                      else if b = 2 then block_R\<lparr>workspace := False\<rparr> else no_block),
       conns := (\<lambda>c. (three_conns c)\<lparr>conn_disposed := True\<rparr>),
       topBlocks := [],
       blockDB := (\<lambda>i. None),
       undoStack := undoStack stack_PQR @ [delete_P],
       calls := calls stack_PQR @
         [Fired delete_P, Deregistered 0, Deregistered 1, Deregistered 2,
          DisposedInputs 2, DisposedConnections 2, DisposedInputs 1, DisposedConnections 1,
          DisposedInputs 0, DisposedConnections 0]\<rparr>"

section \<open>Operations that only change the links of the graph\<close>

lemma links_only_refl [simp]: "links_only s s"
  by (simp add: links_only_def)

lemma links_only_trans: "links_only s t \<Longrightarrow> links_only t u \<Longrightarrow> links_only s u"
  by (simp add: links_only_def)

lemma fire_move_frame [simp]:
  "blocks (fire_move s b) = blocks s" "conns (fire_move s b) = conns s"
  "topBlocks (fire_move s b) = topBlocks s" "blockDB (fire_move s b) = blockDB s"
  "nextBlockRef (fire_move s b) = nextBlockRef s" "nextConnRef (fire_move s b) = nextConnRef s"
  "MAX_UNDO (fire_move s b) = MAX_UNDO s"
  "Events_recordUndo (fire_move s b) = Events_recordUndo s"
  "Events_disabled (fire_move s b) = Events_disabled s"
  "Events_group (fire_move s b) = Events_group s" "uidCount (fire_move s b) = uidCount s"
  by (simp_all add: fire_move_def Events_fire_def fireChangeListener_def Let_def)

lemma fire_move_links_only: "links_only s (fire_move s b)"
  by (simp add: links_only_def)

lemma setParent_links_only: "links_only s (state_of (setParent s b p))"
  by (auto simp: links_only_def setParent_def upd_block_def removeTopBlock_def addTopBlock_def
      Let_def split: option.splits)

lemma disconnect_links_only: "links_only s (state_of (disconnect s c))"
proof (cases "targetConnection (conns s c)")
  case None
  then show ?thesis by (simp add: disconnect_def)
next
  case (Some t)
  define s1 where "s1 = upd_conn c (\<lambda>x. x\<lparr>targetConnection := None\<rparr>)
                      (upd_conn t (\<lambda>x. x\<lparr>targetConnection := None\<rparr>) s)"
  have "links_only s s1" by (simp add: s1_def links_only_def upd_conn_def)
  moreover have "links_only s1 (state_of (and_then (setParent s1 ch None)
      (\<lambda>s2. Normal (fire_move s2 ch))))" for ch
    using setParent_links_only [of s1 ch None]
    by (cases "setParent s1 ch None") (auto simp: links_only_def)
  ultimately show ?thesis
    using Some by (auto simp: disconnect_def Let_def s1_def intro: links_only_trans)
qed

lemma connect_links_only: "links_only s (state_of (connect s c d))"
proof -
  define s1 where "s1 = upd_conn c (\<lambda>x. x\<lparr>targetConnection := Some d\<rparr>)
                      (upd_conn d (\<lambda>x. x\<lparr>targetConnection := Some c\<rparr>) s)"
  have "links_only s s1" by (simp add: s1_def links_only_def upd_conn_def)
  moreover have "links_only s1 (state_of (and_then (setParent s1 ch p)
      (\<lambda>s2. Normal (fire_move s2 ch'))))" for ch ch' p
    using setParent_links_only [of s1 ch p]
    by (cases "setParent s1 ch p") (auto simp: links_only_def)
  ultimately show ?thesis
    by (auto simp: connect_def Let_def s1_def intro: links_only_trans)
qed

lemma and_then_links_only:
  "links_only s (state_of r) \<Longrightarrow> (\<And>t. links_only t (state_of (f t))) \<Longrightarrow>
     links_only s (state_of (and_then r f))"
  by (cases r) (auto intro: links_only_trans)

lemma unplug_links_only: "links_only s (state_of (unplug s b h))"
  unfolding unplug_def Let_def
  by (auto split: option.splits intro!: and_then_links_only
      simp: disconnect_links_only connect_links_only)

lemma disconnect_child:
  assumes "targetConnection (conns s c) = Some t"
    and "conn_type (conns s c) = PREVIOUS_STATEMENT"
    and "sourceBlock (conns s c) = b"
    and "parentBlock (blocks s b) = Some p"
    and "previousConnection (blocks s b) = Some c"
    and "outputConnection (blocks s b) = None"
    and "workspace (blocks s b)"
  shows "disconnect s c = Normal (detached s c t b p)"
  using assms
  by (auto simp add: disconnect_def setParent_def isSuperior_def isConnected_def detached_def
      upd_block_def upd_conn_def addTopBlock_def Let_def)

lemma connect_child:
  assumes "conn_type (conns s c) = NEXT_STATEMENT"
    and "conn_type (conns s d) = PREVIOUS_STATEMENT"
    and "checkType s c d"
    and "sourceBlock (conns s c) = p"
    and "sourceBlock (conns s d) = b"
    and "parentBlock (blocks s b) = None"
    and "workspace (blocks s b)"
    and "b \<in> set (topBlocks s)"
    and "c \<noteq> d"
  shows "connect s c d = Normal (attached s c d b p)"
  using assms
  by (auto simp add: connect_def setParent_def isSuperior_def checkType_def attached_def
      upd_block_def upd_conn_def removeTopBlock_def Let_def)

lemmas upd_defs = upd_block_def upd_conn_def addTopBlock_def

section \<open>The example stores, written out\<close>

lemmas model_defs =
  newBlock_def Block_def Block_fields_def Block_id_def Block_uses_genUid_def getBlockById_def
  upd_block_def upd_conn_def addTopBlock_def removeTopBlock_def fire_create_def
  Events_isEnabled_def Events_setGroup_def Events_fire_def fireChangeListener_def
  new_event_def setPreviousStatement_def setNextStatement_def setOutput_def
  makeConnection_def setCheck_def connect_def disconnect_def checkType_def isSuperior_def
  isConnected_def setParent_def Let_def

lemma three_blocks_eq:
  "three_blocks =
     \<lparr>blocks = (\<lambda>b. if b = 0 then block_P else if b = 1 then block_Q
                     else if b = 2 then block_R else no_block),
      conns = three_conns,
      nextBlockRef = 3, nextConnRef = 6, topBlocks = [0, 1, 2],
      blockDB = (\<lambda>i. if i = ''P'' then Some 0 else if i = ''Q'' then Some 1
                      else if i = ''R'' then Some 2 else None),
      undoStack = [create_ev ''P'' ''u'', create_ev ''Q'' ''ux'', create_ev ''R'' ''uxx''],
      redoStack = [], MAX_UNDO = 1024, Events_recordUndo = True, Events_disabled = 0,
      Events_group = [], uidCount = 3,
      calls = [Fired (create_ev ''P'' ''u''), Fired (create_ev ''Q'' ''ux''),
               Fired (create_ev ''R'' ''uxx'')]\<rparr>"
  by (simp add: three_blocks_def model_defs new_Workspace_def example_genUid_def
      example_Blocks_def block_P_def block_Q_def block_R_def three_conns_def free_conn_def
      create_ev_def fun_eq_iff)

lemma stack_PQR_eq:
  "stack_PQR = three_blocks
     \<lparr>blocks := (\<lambda>b. if b = 0 then block_P\<lparr>childBlocks := [1]\<rparr>
                      else if b = 1 then block_Q\<lparr>parentBlock := Some 0, childBlocks := [2]\<rparr>
                      else if b = 2 then block_R\<lparr>parentBlock := Some 1\<rparr> else no_block),
       conns := (\<lambda>c. if c = 1 then (three_conns 1)\<lparr>targetConnection := Some 2\<rparr>
                     else if c = 2 then (three_conns 2)\<lparr>targetConnection := Some 1\<rparr>
                     else if c = 3 then (three_conns 3)\<lparr>targetConnection := Some 4\<rparr>
                     else if c = 4 then (three_conns 4)\<lparr>targetConnection := Some 3\<rparr>
                     else three_conns c),
       topBlocks := [0],
       undoStack := [create_ev ''P'' ''u'', create_ev ''Q'' ''ux'', create_ev ''R'' ''uxx'',
                     move_ev ''Q'', move_ev ''R''],
       calls := [Fired (create_ev ''P'' ''u''), Fired (create_ev ''Q'' ''ux''),
                 Fired (create_ev ''R'' ''uxx''), Fired (move_ev ''Q''), Fired (move_ev ''R'')]\<rparr>"
  by (simp add: stack_PQR_def three_blocks_eq connect_def setParent_def checkType_def
      isSuperior_def upd_block_def upd_conn_def removeTopBlock_def Let_def
      fire_move_def Events_fire_def Events_isEnabled_def fireChangeListener_def new_event_def
      move_ev_def unshift_def
      three_conns_def free_conn_def block_P_def block_Q_def block_R_def fun_eq_iff)

lemma typed_stack_eq:
  "typed_stack = stack_PQR
     \<lparr>conns := (\<lambda>c. if c = 1 then (conns stack_PQR 1)\<lparr>check := Some [''A'']\<rparr>
                     else if c = 4 then (conns stack_PQR 4)\<lparr>check := Some [''B'']\<rparr>
                     else conns stack_PQR c)\<rparr>"
  by (simp add: typed_stack_def stack_PQR_eq three_blocks_eq setCheck_def upd_conn_def
      three_conns_def free_conn_def fun_eq_iff)

lemma attached_no_parent_eq:
  "attached_no_parent = three_blocks
     \<lparr>conns := (\<lambda>c. if c = 1 then (three_conns 1)\<lparr>targetConnection := Some 2\<rparr>
                     else if c = 2 then (three_conns 2)\<lparr>targetConnection := Some 1\<rparr>
                     else three_conns c)\<rparr>"
  by (simp add: attached_no_parent_def three_blocks_eq upd_conn_def fun_eq_iff)

lemma stack_PQR_is_stack: "stack_of_three stack_PQR 0 1 2 1 2 3 4"
  by (simp add: stack_of_three_def stack_PQR_eq three_blocks_eq three_conns_def free_conn_def
      block_P_def block_Q_def block_R_def)

lemma typed_stack_is_stack: "stack_of_three typed_stack 0 1 2 1 2 3 4"
  by (simp add: stack_of_three_def typed_stack_eq stack_PQR_eq three_blocks_eq three_conns_def
      free_conn_def block_P_def block_Q_def block_R_def)

lemma stack_checks: "checkType stack_PQR 1 4" "\<not> checkType typed_stack 1 4"
  by (simp_all add: checkType_def typed_stack_eq stack_PQR_eq three_blocks_eq three_conns_def
      free_conn_def)

lemma dispose_stack_PQR: "dispose 3 stack_PQR 0 False = Some (Normal disposed_PQR)"
  by (simp add: eval_nat_numeral stack_PQR_eq three_blocks_eq disposed_PQR_def delete_P_def
      unplug_def getNextBlock_def targetBlock_def getConnections_def deregister_def
      dispose_inputs_def dispose_connections_def input_dispose_def conn_dispose_def
      Events_isEnabled_def Events_fire_def Events_disable_def Events_enable_def
      fireChangeListener_def new_event_def unshift_def fire_move_def
      disconnect_def setParent_def isConnected_def isSuperior_def
      upd_block_def upd_conn_def addTopBlock_def removeTopBlock_def Let_def
      three_conns_def free_conn_def no_connection_def block_P_def block_Q_def block_R_def
      create_ev_def fun_eq_iff)

section \<open>Calls that leave the output and previous connections of every block alone\<close>



lemma links_only_same_ends: "links_only s t \<Longrightarrow> same_ends s t"
  by (simp add: links_only_def same_ends_def)


lemma setCheck_same_ends: "same_ends s (state_of (setCheck s c chk))"
proof -
  have "same_ends s (state_of (disconnect s c))"
    by (rule links_only_same_ends) (rule disconnect_links_only)
  then show ?thesis
    by (cases "disconnect s c")
      (auto simp: setCheck_def same_ends_def upd_conn_def split: option.splits)
qed

lemma setCheck_ends [simp]:
  "outputConnection (blocks (state_of (setCheck s c chk)) x) = outputConnection (blocks s x)"
  "previousConnection (blocks (state_of (setCheck s c chk)) x) = previousConnection (blocks s x)"
  using setCheck_same_ends [of s c chk] by (simp_all add: same_ends_def)







lemma fire_create_blocks [simp]: "blocks (fire_create g s b) = blocks s"
  by (simp add: fire_create_def Events_fire_def Events_setGroup_def fireChangeListener_def
      Let_def)




lemma conn_dispose_blocks [simp]: "blocks (conn_dispose s c) = blocks s"
  by (simp add: conn_dispose_def upd_conn_def)

lemma input_dispose_blocks [simp]: "blocks (input_dispose s i) = blocks s"
  by (simp add: input_dispose_def split: option.splits)

lemma foldl_input_dispose_blocks [simp]: "blocks (foldl input_dispose s is) = blocks s"
  by (induction "is" arbitrary: s) simp_all










section \<open>Shaping a block that is attached to nothing\<close>








lemma fire_create_frame [simp]:
  "topBlocks (fire_create g s b) = topBlocks s"
  "blockDB (fire_create g s b) = blockDB s"
  by (simp_all add: fire_create_def Events_fire_def Events_setGroup_def fireChangeListener_def
      Let_def)


section \<open>What every step of dispose preserves\<close>

text \<open>A relation between stores that is reflexive, transitive and kept by each step of
  \<open>dispose\<close> holds between the store before and the store after \<open>dispose\<close>, whatever the
  outcome.\<close>

lemma dispose_preserves:
  assumes rf: "\<And>s. R s s" and tr: "\<And>s t u. R s t \<Longrightarrow> R t u \<Longrightarrow> R s u"
    and un: "\<And>s b h. R s (state_of (unplug s b h))"
    and fi: "\<And>s e. R s (Events_fire s e)"
    and di: "\<And>s. R s (Events_disable s)"
    and en: "\<And>s. R s (Events_enable s)"
    and de: "\<And>s b. R s (state_of (deregister s b))"
    and inp: "\<And>s b. R s (dispose_inputs s b)"
    and con: "\<And>s b. R s (state_of (dispose_connections s b))"
  shows "dispose n s b h = Some r \<Longrightarrow> R s (state_of r)"
    and "dispose_children n s b i = Some r \<Longrightarrow> R s (state_of r)"
proof (induction n s b h and n s b i arbitrary: r and r rule: dispose_dispose_children.induct)
  case (1 s b h)
  then show ?case by simp
next
  case (2 n s b h)
  show ?case
  proof (cases "workspace (blocks s b)")
    case False
    with 2(2) show ?thesis by (auto simp: rf)
  next
    case True
    note ws = this
    show ?thesis
    proof (cases "unplug s b h")
      case (Thrown e s1)
      with 2(2) ws un [of s b h] show ?thesis by auto
    next
      case (Normal s1)
      define s3 where "s3 = Events_disable (if Events_isEnabled s1
          then Events_fire s1 (new_event s1 DELETE b) else s1)"
      have "R s s1" using un [of s b h] Normal by simp
      moreover have "R s1 s3" unfolding s3_def by (auto intro: tr fi di rf)
      ultimately have s3: "R s s3" by (rule tr)
      have d: "R s3 (state_of (deregister s3 b))" by (rule de)
      show ?thesis
      proof (cases "deregister s3 b")
        case (Thrown e s4)
        with d have "R s (Events_enable s4)" by (auto intro: tr [OF s3] tr en)
        with 2(2) ws Normal Thrown show ?thesis
          by (auto simp: s3_def [symmetric] Let_def)
      next
        case N4: (Normal s4)
        have s4: "R s s4" using s3 d N4 by (auto intro: tr)
        from 2(2) ws Normal N4 obtain r5 where
          r5: "dispose_children n s4 b (length (childBlocks (blocks s4 b))) = Some r5"
          by (auto simp: s3_def [symmetric] Let_def split: option.splits)
        have ih: "R s4 (state_of r5)"
          by (rule 2(1) [OF _ Normal refl refl]) (use ws N4 r5 in \<open>simp_all add: s3_def\<close>)
        show ?thesis
        proof (cases r5)
          case (Thrown e s5)
          with ih s4 have "R s (Events_enable s5)" by (auto intro: tr en)
          with 2(2) ws Normal N4 r5 Thrown show ?thesis
            by (auto simp: s3_def [symmetric] Let_def)
        next
          case N5: (Normal s5)
          have "R s5 (state_of (dispose_connections (dispose_inputs s5 b) b))"
            by (rule tr [OF inp con])
          then have "R s5 (state_of (try_finally
              (dispose_connections (dispose_inputs s5 b) b) Events_enable))"
            by (cases "dispose_connections (dispose_inputs s5 b) b") (auto intro: tr en)
          with ih s4 N5 have "R s (state_of (try_finally
              (dispose_connections (dispose_inputs s5 b) b) Events_enable))"
            by (auto intro: tr)
          with 2(2) ws Normal N4 r5 N5 show ?thesis
            by (auto simp: s3_def [symmetric] Let_def)
        qed
      qed
    qed
  qed
next
  case (3 n s b)
  then show ?case by (auto simp: rf)
next
  case (4 n s b i)
  show ?case
  proof (cases "i < length (childBlocks (blocks s b))")
    case False
    with 4(3) show ?thesis by (auto simp: rf)
  next
    case True
    from 4(3) True obtain r1 where r1: "dispose n s (childBlocks (blocks s b) ! i) False = Some r1"
      by (auto split: option.splits)
    have a: "R s (state_of r1)" using 4(1) [OF True r1] .
    show ?thesis
    proof (cases r1)
      case (Thrown e s1)
      with 4(3) True r1 a show ?thesis by auto
    next
      case (Normal s1)
      with 4(3) True r1 have "dispose_children n s1 b i = Some r" by auto
      from 4(2) [OF True r1 Normal this] a Normal show ?thesis
        by (auto intro: tr)
    qed
  qed
qed


lemma dispose_connections_loop_no_revival:
  "no_revival s (state_of (dispose_connections_loop s cs))"
proof (induction cs arbitrary: s)
  case Nil
  then show ?case by (simp add: no_revival_def)
next
  case (Cons c cs)
  have a: "links_only s (state_of (if isConnected s c then disconnect s c else Normal s))"
    by (simp add: disconnect_links_only)
  show ?case
  proof (cases "if isConnected s c then disconnect s c else Normal s")
    case (Thrown e t)
    with a show ?thesis by (auto simp: no_revival_def links_only_def)
  next
    case (Normal t)
    with a Cons.IH [of "conn_dispose t c"] show ?thesis
      by (auto simp: no_revival_def links_only_def)
  qed
qed

lemma no_revival_refl: "no_revival s s"
  by (simp add: no_revival_def)

lemma no_revival_trans: "no_revival s t \<Longrightarrow> no_revival t u \<Longrightarrow> no_revival s u"
  by (simp add: no_revival_def)

lemma unplug_no_revival: "no_revival s (state_of (unplug s b h))"
  using unplug_links_only [of s b h] by (simp add: no_revival_def links_only_def)

lemma Events_fire_no_revival: "no_revival s (Events_fire s e)"
  by (simp add: no_revival_def Events_fire_def fireChangeListener_def Let_def)

lemma Events_disable_no_revival: "no_revival s (Events_disable s)"
  by (simp add: no_revival_def Events_disable_def)

lemma Events_enable_no_revival: "no_revival s (Events_enable s)"
  by (simp add: no_revival_def Events_enable_def)

lemma deregister_no_revival: "no_revival s (state_of (deregister s b))"
  by (auto simp: no_revival_def deregister_def removeTopBlock_def upd_block_def Let_def)

lemma dispose_inputs_no_revival: "no_revival s (dispose_inputs s b)"
  by (simp add: no_revival_def dispose_inputs_def upd_block_def Let_def)

lemma dispose_connections_no_revival: "no_revival s (state_of (dispose_connections s b))"
  using dispose_connections_loop_no_revival [of s "getConnections s b"]
  by (cases "dispose_connections_loop s (getConnections s b)")
    (auto simp: dispose_connections_def no_revival_def)

lemmas no_revival_steps =
  no_revival_refl no_revival_trans unplug_no_revival Events_fire_no_revival
  Events_disable_no_revival Events_enable_no_revival deregister_no_revival
  dispose_inputs_no_revival dispose_connections_no_revival


lemma dispose_children_no_revival:
  "dispose_children n s b i = Some r \<Longrightarrow> no_revival s (state_of r)"
  by (rule dispose_preserves(2) [where R = no_revival, OF no_revival_steps])

lemma dispose_Suc_Normal:
  assumes d: "dispose (Suc k) s b h = Some (Normal s')" and ws: "workspace (blocks s b)"
  obtains s1 s4 s5 s6 where
    "unplug s b h = Normal s1"
    "deregister (Events_disable (if Events_isEnabled s1
        then Events_fire s1 (new_event s1 DELETE b) else s1)) b = Normal s4"
    "dispose_children k s4 b (length (childBlocks (blocks s4 b))) = Some (Normal s5)"
    "dispose_connections (dispose_inputs s5 b) b = Normal s6"
    "s' = Events_enable s6"
proof (cases "unplug s b h")
  case (Thrown e s1)
  with d ws show ?thesis by simp
next
  case (Normal s1)
  define s3 where "s3 = Events_disable (if Events_isEnabled s1
        then Events_fire s1 (new_event s1 DELETE b) else s1)"
  show ?thesis
  proof (cases "deregister s3 b")
    case (Thrown e s4)
    with d ws Normal show ?thesis by (simp add: s3_def [symmetric] Let_def)
  next
    case N4: (Normal s4)
    show ?thesis
    proof (cases "dispose_children k s4 b (length (childBlocks (blocks s4 b)))")
      case None
      with d ws Normal N4 show ?thesis by (simp add: s3_def [symmetric] Let_def)
    next
      case (Some r5)
      show ?thesis
      proof (cases r5)
        case (Thrown e s5)
        with d ws Normal N4 Some show ?thesis by (simp add: s3_def [symmetric] Let_def)
      next
        case N5: (Normal s5)
        show ?thesis
        proof (cases "dispose_connections (dispose_inputs s5 b) b")
          case (Thrown e s6)
          with d ws Normal N4 Some N5 show ?thesis by (simp add: s3_def [symmetric] Let_def)
        next
          case N6: (Normal s6)
          with d ws Normal N4 Some N5 have "s' = Events_enable s6"
            by (simp add: s3_def [symmetric] Let_def)
          with that Normal N4 Some N5 N6 show ?thesis by (simp add: s3_def)
        qed
      qed
    qed
  qed
qed

lemma dispose_forgets_workspace:
  assumes "dispose n s b h = Some (Normal s')"
  shows "\<not> workspace (blocks s' b)"
proof (cases n)
  case 0
  with assms show ?thesis by simp
next
  case (Suc k)
  show ?thesis
  proof (cases "workspace (blocks s b)")
    case False
    with assms Suc show ?thesis by auto
  next
    case True
    have d: "dispose (Suc k) s b h = Some (Normal s')"
      using assms unfolding Suc .
    obtain s1 s4 s5 s6 where
      s4: "deregister (Events_disable (if Events_isEnabled s1
        then Events_fire s1 (new_event s1 DELETE b) else s1)) b = Normal s4"
      and s5: "dispose_children k s4 b (length (childBlocks (blocks s4 b))) = Some (Normal s5)"
      and s6: "dispose_connections (dispose_inputs s5 b) b = Normal s6"
      and s': "s' = Events_enable s6"
      by (rule dispose_Suc_Normal [OF d True])
    have w4: "\<not> workspace (blocks s4 b)"
      using s4 by (auto simp: deregister_def removeTopBlock_def upd_block_def Let_def
          split: if_splits)
    have "no_revival s4 s5"
      using dispose_children_no_revival [OF s5] by simp
    moreover have "no_revival s5 s6"
      using no_revival_trans [OF dispose_inputs_no_revival dispose_connections_no_revival,
          of s5 b b] s6 by simp
    ultimately show ?thesis
      using w4 s' by (auto simp: no_revival_def Events_enable_def)
  qed
qed

section \<open>Lookups that miss\<close>

lemma find_field_miss: "Some n \<notin> field_name ` set fs \<Longrightarrow> find_field fs n = None"
  by (induction fs) auto

lemma getField_loop_miss:
  "\<forall>i \<in> set is. Some n \<notin> field_name ` set (fieldRow i) \<Longrightarrow> getField_loop is n = None"
  by (induction "is") (auto simp: find_field_miss)

lemma getInput_loop_miss: "n \<notin> input_name ` set is \<Longrightarrow> getInput_loop is n = None"
  by (induction "is") auto

text \<open>C9. A lookup with an unknown key returns null and does not throw: \<open>getBlockById\<close> for
  an id that is not in the block database; \<open>getField\<close> and \<open>getFieldValue\<close> for a name that
  no field of the block has; \<open>getInput\<close> and \<open>getInputTargetBlock\<close> for a name that no input
  of the block has.\<close>

theorem lookup_miss_returns_null:
  "(blockDB s i = None \<longrightarrow> getBlockById s i = None) \<and>
   ((\<forall>inp \<in> set (inputList (blocks s b)). Some n \<notin> field_name ` set (fieldRow inp)) \<longrightarrow>
      getField s b n = None \<and> getFieldValue s b n = None) \<and>
   (n \<notin> input_name ` set (inputList (blocks s b)) \<longrightarrow>
      getInput s b n = None \<and> getInputTargetBlock s b n = None)"
  by (simp add: getBlockById_def getField_def getFieldValue_def getInput_def
      getInputTargetBlock_def getField_loop_miss getInput_loop_miss)

lemma one_field_inputs:
  "inputList (blocks one_field 0) =
     [\<lparr>input_type = DUMMY_INPUT, input_name = ''A'', connection = None,
       fieldRow = [\<lparr>field_name = Some ''F'', field_value = ''v''\<rparr>]\<rparr>]"
  by (simp add: one_field_def upd_block_def)

lemma one_field_DB: "blockDB one_field ''zz'' = None"
  by (simp add: one_field_def upd_block_def newBlock_def Block_def Block_fields_def Block_id_def
      Block_uses_genUid_def getBlockById_def new_Workspace_def addTopBlock_def
      fire_create_def Events_isEnabled_def Events_setGroup_def Events_fire_def
      fireChangeListener_def new_event_def Let_def)

text \<open>The block of \<open>one_field\<close> has the input A and the field F: the names B and G miss, the
  id zz is not registered, and the field that exists is still found.\<close>

theorem lookup_miss_returns_null_witness:
  "blockDB one_field ''zz'' = None \<and> getBlockById one_field ''zz'' = None \<and>
   getField one_field 0 ''G'' = None \<and> getFieldValue one_field 0 ''G'' = None \<and>
   getInput one_field 0 ''B'' = None \<and> getInputTargetBlock one_field 0 ''B'' = None \<and>
   getFieldValue one_field 0 ''F'' = Some ''v''"
  using lookup_miss_returns_null [of one_field "''zz''" 0 "''G''"]
    lookup_miss_returns_null [of one_field "''zz''" 0 "''B''"]
  by (simp add: one_field_inputs one_field_DB getFieldValue_def getField_def)

section \<open>The bound on the undo stack\<close>

lemma fireChangeListener_pushes:
  "recordUndo e \<Longrightarrow> undoStack (fireChangeListener s e) = undoStack s @ [e]"
  by (simp add: fireChangeListener_def unshift_def Let_def)

text \<open>C4. After \<open>fireChangeListener\<close> records an event, the undo stack is said to hold at
  most \<open>MAX_UNDO\<close> events, the oldest being discarded. The code calls \<open>unshift()\<close> with no
  argument, which removes nothing: on a workspace whose undo stack holds 1024 events
  (\<open>MAX_UNDO\<close>), recording one more leaves 1025, the oldest still first.\<close>

theorem undo_stack_exceeds_MAX_UNDO:
  "MAX_UNDO (new_Workspace\<lparr>undoStack := replicate 1024 (ev ''a'' [])\<rparr>) = 1024 \<and>
   length (undoStack (new_Workspace\<lparr>undoStack := replicate 1024 (ev ''a'' [])\<rparr>)) = 1024 \<and>
   recordUndo (ev ''b'' []) \<and>
   length (undoStack (fireChangeListener
      (new_Workspace\<lparr>undoStack := replicate 1024 (ev ''a'' [])\<rparr>) (ev ''b'' []))) = 1025 \<and>
   hd (undoStack (fireChangeListener
      (new_Workspace\<lparr>undoStack := replicate 1024 (ev ''a'' [])\<rparr>) (ev ''b'' []))) = ev ''a'' []"
  by (simp add: fireChangeListener_def unshift_def Let_def new_Workspace_def ev_def)

section \<open>Undo and redo\<close>

lemma undo_collect_eq:
  "undo_collect e st evs =
     (rev (dropWhile (same_group e) (rev st)), evs @ takeWhile (same_group e) (rev st))"
proof (induction st arbitrary: evs rule: rev_induct)
  case Nil
  then show ?case by (simp add: undo_collect.simps)
next
  case (snoc x xs)
  show ?case
  proof (cases "same_group e x")
    case True
    then have "undo_collect e (xs @ [x]) evs = undo_collect e xs (evs @ [x])"
      by (subst undo_collect.simps) (auto simp add: same_group_def)
    with True snoc show ?thesis by simp
  next
    case False
    then have "undo_collect e (xs @ [x]) evs = (xs @ [x], evs)"
      by (subst undo_collect.simps) (auto simp add: same_group_def)
    with False show ?thesis by simp
  qed
qed

lemma foldl_Thrown:
  "foldl (\<lambda>r e. and_then r (g e)) (Thrown x s) evs = Thrown x s"
  by (induction evs) simp_all

lemma run_events_replay: "run_events run redo s evs = replay run redo s evs"
proof (induction evs arbitrary: s)
  case Nil
  show ?case by (simp add: replay_def)
next
  case (Cons e es)
  show ?case
  proof (cases "run e redo (note_run e redo s)")
    case (Normal s1)
    with Cons [of s1] show ?thesis by (simp add: replay_def note_run_def)
  next
    case (Thrown x s1)
    then show ?thesis by (simp add: replay_def note_run_def foldl_Thrown)
  qed
qed

lemma run_events_log:
  assumes keep: "\<And>e f t. Events_recordUndo (state_of (run e f t)) = Events_recordUndo t \<and>
      runs_of (state_of (run e f t)) = runs_of t \<and>
      undoStack (state_of (run e f t)) = undoStack t \<and>
      redoStack (state_of (run e f t)) = redoStack t"
  shows "\<exists>k\<le>length evs.
      runs_of (state_of (run_events run redo s evs)) =
        runs_of s @ map (\<lambda>e. Ran e redo (Events_recordUndo s)) (take k evs) \<and>
      (is_Normal (run_events run redo s evs) \<longrightarrow> k = length evs) \<and>
      Events_recordUndo (state_of (run_events run redo s evs)) = Events_recordUndo s \<and>
      undoStack (state_of (run_events run redo s evs)) = undoStack s \<and>
      redoStack (state_of (run_events run redo s evs)) = redoStack s"
proof (induction evs arbitrary: s)
  case Nil
  show ?case by simp
next
  case (Cons e es)
  define t where "t = s\<lparr>calls := calls s @ [Ran e redo (Events_recordUndo s)]\<rparr>"
  have t: "runs_of t = runs_of s @ [Ran e redo (Events_recordUndo s)]"
    "Events_recordUndo t = Events_recordUndo s" "undoStack t = undoStack s"
    "redoStack t = redoStack s"
    by (simp_all add: t_def runs_of_def)
  note k = keep [of e redo t]
  show ?case
  proof (cases "run e redo t")
    case (Thrown x s1)
    with k t have "runs_of (state_of (run_events run redo s (e # es))) =
        runs_of s @ map (\<lambda>e. Ran e redo (Events_recordUndo s)) (take 1 (e # es))"
      "\<not> is_Normal (run_events run redo s (e # es))"
      "Events_recordUndo (state_of (run_events run redo s (e # es))) = Events_recordUndo s"
      "undoStack (state_of (run_events run redo s (e # es))) = undoStack s"
      "redoStack (state_of (run_events run redo s (e # es))) = redoStack s"
      by (simp_all add: t_def)
    then show ?thesis by (intro exI [of _ 1]) simp
  next
    case (Normal s1)
    with k t have s1: "runs_of s1 = runs_of s @ [Ran e redo (Events_recordUndo s)]"
      "Events_recordUndo s1 = Events_recordUndo s" "undoStack s1 = undoStack s"
      "redoStack s1 = redoStack s"
      by simp_all
    have r: "run_events run redo s (e # es) = run_events run redo s1 es"
      using Normal by (simp add: t_def)
    from Cons [of s1] obtain k' where k': "k' \<le> length es"
      "runs_of (state_of (run_events run redo s1 es)) =
         runs_of s1 @ map (\<lambda>e. Ran e redo (Events_recordUndo s1)) (take k' es)"
      "is_Normal (run_events run redo s1 es) \<longrightarrow> k' = length es"
      "Events_recordUndo (state_of (run_events run redo s1 es)) = Events_recordUndo s1"
      "undoStack (state_of (run_events run redo s1 es)) = undoStack s1"
      "redoStack (state_of (run_events run redo s1 es)) = redoStack s1"
      by blast
    show ?thesis
      unfolding r using k' s1 by (intro exI [of _ "Suc k'"]) simp
  qed
qed

lemma undo_unfolded:
  "undo filter_events run s redo =
     (if source_stack s redo = [] then Normal s
      else try_finally
             (run_events run redo
                ((with_stacks s redo (undo_rest (source_stack s redo))
                    (opposite_stack s redo @ undo_batch (source_stack s redo)))
                 \<lparr>Events_recordUndo := False\<rparr>)
                (filter_events (undo_batch (source_stack s redo)) redo))
             (\<lambda>t. t\<lparr>Events_recordUndo := True\<rparr>))"
  by (cases redo)
    (simp_all add: undo_def undo_collect_eq source_stack_def opposite_stack_def
      with_stacks_def undo_batch_def undo_rest_def Let_def)

lemma try_finally_frame:
  "runs_of (state_of (try_finally r (\<lambda>t. t\<lparr>Events_recordUndo := True\<rparr>))) = runs_of (state_of r)"
  "undoStack (state_of (try_finally r (\<lambda>t. t\<lparr>Events_recordUndo := True\<rparr>))) = undoStack (state_of r)"
  "redoStack (state_of (try_finally r (\<lambda>t. t\<lparr>Events_recordUndo := True\<rparr>))) = redoStack (state_of r)"
  "Events_recordUndo (state_of (try_finally r (\<lambda>t. t\<lparr>Events_recordUndo := True\<rparr>)))"
  "is_Normal (try_finally r g) = is_Normal r"
  by (cases r; simp add: runs_of_def)+

text \<open>C3, as amended. \<open>undo(redo)\<close> leaves everything unchanged when the source stack is
  empty. Otherwise it pops the top event of the source stack together with the events
  immediately below it that share its non-empty group id, pushes exactly those events, in
  the order popped, onto the opposite stack, sets \<open>Blockly.Events.recordUndo\<close> to false, and
  then replays the list that \<open>Blockly.Events.filter\<close> returns for the popped events: it calls
  \<open>run(redo)\<close> on each event of that list, in order, each call from the store the previous
  one has left, until a call throws; in the end, also when a call has thrown, it sets
  \<open>Blockly.Events.recordUndo\<close> back to true. So, for \<open>run\<close> methods that leave the flag, the
  two stacks and the log of the calls of \<open>run\<close> alone: the calls of \<open>run\<close> made are those for
  the first k events of the filtered list, each with direction \<open>redo\<close> and with recording
  off, where k is the length of that list when \<open>undo\<close> returns; an event the filter has not
  returned is not run; afterwards recording is on, the source stack has lost the popped
  events and the opposite stack has gained them.\<close>

theorem undo_replays_filtered_batch:
  "undo filter_events run s redo =
     (if source_stack s redo = [] then Normal s
      else try_finally
             (replay run redo
                ((with_stacks s redo (undo_rest (source_stack s redo))
                    (opposite_stack s redo @ undo_batch (source_stack s redo)))
                 \<lparr>Events_recordUndo := False\<rparr>)
                (filter_events (undo_batch (source_stack s redo)) redo))
             (\<lambda>t. t\<lparr>Events_recordUndo := True\<rparr>)) \<and>
   ((\<forall>e f t. Events_recordUndo (state_of (run e f t)) = Events_recordUndo t \<and>
             runs_of (state_of (run e f t)) = runs_of t \<and>
             undoStack (state_of (run e f t)) = undoStack t \<and>
             redoStack (state_of (run e f t)) = redoStack t) \<and>
    source_stack s redo \<noteq> [] \<longrightarrow>
    (\<exists>k\<le>length (filter_events (undo_batch (source_stack s redo)) redo).
       runs_of (state_of (undo filter_events run s redo)) =
         runs_of s @ map (\<lambda>e. Ran e redo False)
                       (take k (filter_events (undo_batch (source_stack s redo)) redo)) \<and>
       (is_Normal (undo filter_events run s redo) \<longrightarrow>
          k = length (filter_events (undo_batch (source_stack s redo)) redo))) \<and>
    Events_recordUndo (state_of (undo filter_events run s redo)) \<and>
    source_stack (state_of (undo filter_events run s redo)) redo =
      undo_rest (source_stack s redo) \<and>
    opposite_stack (state_of (undo filter_events run s redo)) redo =
      opposite_stack s redo @ undo_batch (source_stack s redo))"
proof (intro conjI impI)
  show "undo filter_events run s redo =
     (if source_stack s redo = [] then Normal s
      else try_finally
             (replay run redo
                ((with_stacks s redo (undo_rest (source_stack s redo))
                    (opposite_stack s redo @ undo_batch (source_stack s redo)))
                 \<lparr>Events_recordUndo := False\<rparr>)
                (filter_events (undo_batch (source_stack s redo)) redo))
             (\<lambda>t. t\<lparr>Events_recordUndo := True\<rparr>))"
    by (simp add: undo_unfolded run_events_replay)
next
  assume a: "(\<forall>e f t. Events_recordUndo (state_of (run e f t)) = Events_recordUndo t \<and>
             runs_of (state_of (run e f t)) = runs_of t \<and>
             undoStack (state_of (run e f t)) = undoStack t \<and>
             redoStack (state_of (run e f t)) = redoStack t) \<and>
    source_stack s redo \<noteq> []"
  define s2 where "s2 = (with_stacks s redo (undo_rest (source_stack s redo))
      (opposite_stack s redo @ undo_batch (source_stack s redo)))\<lparr>Events_recordUndo := False\<rparr>"
  define evs where "evs = filter_events (undo_batch (source_stack s redo)) redo"
  define r where "r = run_events run redo s2 evs"
  have u: "undo filter_events run s redo = try_finally r (\<lambda>t. t\<lparr>Events_recordUndo := True\<rparr>)"
    using a by (simp add: undo_unfolded r_def s2_def evs_def)
  have s2: "runs_of s2 = runs_of s" "Events_recordUndo s2 = False"
    "source_stack s2 redo = undo_rest (source_stack s redo)"
    "opposite_stack s2 redo = opposite_stack s redo @ undo_batch (source_stack s redo)"
    by (simp_all add: s2_def runs_of_def with_stacks_def source_stack_def opposite_stack_def)
  from a have keep: "\<And>e f t. Events_recordUndo (state_of (run e f t)) = Events_recordUndo t \<and>
      runs_of (state_of (run e f t)) = runs_of t \<and>
      undoStack (state_of (run e f t)) = undoStack t \<and>
      redoStack (state_of (run e f t)) = redoStack t"
    by blast
  from run_events_log [of run evs redo s2, OF keep]
  obtain k where k: "k \<le> length evs"
    "runs_of (state_of r) = runs_of s @ map (\<lambda>e. Ran e redo False) (take k evs)"
    "is_Normal r \<longrightarrow> k = length evs"
    "undoStack (state_of r) = undoStack s2" "redoStack (state_of r) = redoStack s2"
    unfolding r_def s2 by blast
  show "\<exists>k\<le>length (filter_events (undo_batch (source_stack s redo)) redo).
       runs_of (state_of (undo filter_events run s redo)) =
         runs_of s @ map (\<lambda>e. Ran e redo False)
                       (take k (filter_events (undo_batch (source_stack s redo)) redo)) \<and>
       (is_Normal (undo filter_events run s redo) \<longrightarrow>
          k = length (filter_events (undo_batch (source_stack s redo)) redo))"
    using k(1,2,3) unfolding u try_finally_frame evs_def [symmetric] by blast
  show "Events_recordUndo (state_of (undo filter_events run s redo))"
    unfolding u by (rule try_finally_frame)
  show "source_stack (state_of (undo filter_events run s redo)) redo =
      undo_rest (source_stack s redo)"
    using k(4,5) s2(3) unfolding u by (cases redo) (simp_all add: source_stack_def try_finally_frame)
  show "opposite_stack (state_of (undo filter_events run s redo)) redo =
      opposite_stack s redo @ undo_batch (source_stack s redo)"
    using k(4,5) s2(4) unfolding u by (cases redo) (simp_all add: opposite_stack_def try_finally_frame)
qed

text \<open>On an undo stack a(h), b, c(g), d(g), with a filter that keeps every event and the
  \<open>run\<close> of \<open>Blockly.Events.Abstract\<close>: \<open>undo\<close> returns, d and c move to the redo stack,
  \<open>run(false)\<close> is called on d and then on c with recording off, and recording is on again
  afterwards; a redo on the empty redo stack changes nothing.\<close>

theorem undo_replays_filtered_batch_witness:
  "is_Normal (undo keep_all Abstract_run four_events False) \<and>
   undoStack (state_of (undo keep_all Abstract_run four_events False)) =
     [ev ''a'' ''h'', ev ''b'' []] \<and>
   redoStack (state_of (undo keep_all Abstract_run four_events False)) =
     [ev ''d'' ''g'', ev ''c'' ''g''] \<and>
   runs_of (state_of (undo keep_all Abstract_run four_events False)) =
     [Ran (ev ''d'' ''g'') False False, Ran (ev ''c'' ''g'') False False] \<and>
   Events_recordUndo (state_of (undo keep_all Abstract_run four_events False)) \<and>
   undo keep_all Abstract_run four_events True = Normal four_events"
proof -
  have keep: "\<forall>e f t. Events_recordUndo (state_of (Abstract_run e f t)) = Events_recordUndo t \<and>
      runs_of (state_of (Abstract_run e f t)) = runs_of t \<and>
      undoStack (state_of (Abstract_run e f t)) = undoStack t \<and>
      redoStack (state_of (Abstract_run e f t)) = redoStack t"
    by (simp add: Abstract_run_def)
  have st: "source_stack four_events False =
      [ev ''a'' ''h'', ev ''b'' [], ev ''c'' ''g'', ev ''d'' ''g'']"
    "opposite_stack four_events False = []" "source_stack four_events True = []"
    "runs_of four_events = []"
    by (simp_all add: four_events_def new_Workspace_def source_stack_def opposite_stack_def
        runs_of_def)
  have b: "undo_batch [ev ''a'' ''h'', ev ''b'' [], ev ''c'' ''g'', ev ''d'' ''g''] =
      [ev ''d'' ''g'', ev ''c'' ''g'']"
    "undo_rest [ev ''a'' ''h'', ev ''b'' [], ev ''c'' ''g'', ev ''d'' ''g''] =
      [ev ''a'' ''h'', ev ''b'' []]"
    by (simp_all add: undo_batch_def undo_rest_def same_group_def ev_def)
  have n: "is_Normal (undo keep_all Abstract_run four_events False)"
    unfolding undo_replays_filtered_batch [of keep_all Abstract_run four_events False, THEN conjunct1]
    by (simp add: st b keep_all_def replay_def Abstract_run_def try_finally_frame)
  have e: "undo keep_all Abstract_run four_events True = Normal four_events"
    unfolding undo_replays_filtered_batch [of keep_all Abstract_run four_events True, THEN conjunct1]
    by (simp add: st)
  from undo_replays_filtered_batch [of keep_all Abstract_run four_events False, THEN conjunct2]
    keep n
  have "runs_of (state_of (undo keep_all Abstract_run four_events False)) =
      [Ran (ev ''d'' ''g'') False False, Ran (ev ''c'' ''g'') False False]"
    "Events_recordUndo (state_of (undo keep_all Abstract_run four_events False))"
    "source_stack (state_of (undo keep_all Abstract_run four_events False)) False =
      [ev ''a'' ''h'', ev ''b'' []]"
    "opposite_stack (state_of (undo keep_all Abstract_run four_events False)) False =
      [ev ''d'' ''g'', ev ''c'' ''g'']"
    by (auto simp: st b keep_all_def)
  with n e show ?thesis
    by (simp add: source_stack_def opposite_stack_def)
qed

text \<open>C3 as stated fails: the events that are replayed are those the filter returns, not
  the popped ones. A null event has been recorded on the undo stack; with a filter that
  discards null events, \<open>undo\<close> pops it and pushes it onto the redo stack, and \<open>run\<close> is
  never called.\<close>

theorem undo_skips_filtered_event:
  "undoStack null_recorded = [null_ev] \<and>
   undoStack (state_of (undo drop_null Abstract_run null_recorded False)) = [] \<and>
   redoStack (state_of (undo drop_null Abstract_run null_recorded False)) = [null_ev] \<and>
   runs_of (state_of (undo drop_null Abstract_run null_recorded False)) = [] \<and>
   calls (state_of (undo drop_null Abstract_run null_recorded False)) = []"
  by (simp add: undo_def undo_collect.simps null_recorded_def fireChangeListener_def
      new_Workspace_def null_ev_def drop_null_def Abstract_run_def runs_of_def Let_def)

section \<open>Descendants\<close>










section \<open>Reparenting\<close>

lemma setParent_success:
  assumes "newParent \<noteq> parentBlock (blocks s b)" and "setParent s b newParent = Normal s'"
  shows "parentBlock (blocks s' b) = newParent \<and>
      (\<forall>p. parentBlock (blocks s b) = Some p \<longrightarrow>
           childBlocks (blocks s' p) = remove1 b (childBlocks (blocks s p))) \<and>
      (parentBlock (blocks s b) = None \<longrightarrow> topBlocks s' = remove1 b (topBlocks s)) \<and>
      (\<forall>q. newParent = Some q \<longrightarrow>
           childBlocks (blocks s' q) = childBlocks (blocks s q) @ [b]) \<and>
      (newParent = None \<longrightarrow> topBlocks s' = topBlocks s @ [b])"
  using assms
  by (auto simp: setParent_def upd_block_def removeTopBlock_def addTopBlock_def
        Let_def split: option.splits if_splits)

lemma setParent_throws:
  assumes "newParent \<noteq> parentBlock (blocks s b)" and "parentBlock (blocks s b) \<noteq> None"
    and "(\<exists>c. previousConnection (blocks s b) = Some c \<and> isConnected s c) \<or>
         (\<exists>c. outputConnection (blocks s b) = Some c \<and> isConnected s c)"
  shows "\<not> is_Normal (setParent s b newParent)"
  using assms
  by (auto simp: setParent_def upd_block_def isConnected_def Let_def split: option.splits)

lemma setParent_returns_iff:
  "is_Normal (setParent s b newParent) \<longleftrightarrow>
     newParent = parentBlock (blocks s b) \<or>
     (case parentBlock (blocks s b) of
        None \<Rightarrow> workspace (blocks s b) \<and> b \<in> set (topBlocks s)
      | Some p \<Rightarrow>
          (\<forall>c. previousConnection (blocks s b) = Some c \<longrightarrow> \<not> isConnected s c) \<and>
          (\<forall>c. outputConnection (blocks s b) = Some c \<longrightarrow> \<not> isConnected s c) \<and>
          (newParent = None \<longrightarrow> workspace (blocks s b)))"
  by (auto simp: setParent_def upd_block_def removeTopBlock_def addTopBlock_def isConnected_def
        Let_def split: option.splits)

lemma child_unattached_eq:
  "child_unattached = three_blocks
     \<lparr>blocks := (\<lambda>b. if b = 0 then block_P\<lparr>childBlocks := [1]\<rparr>
                      else if b = 1 then block_Q\<lparr>parentBlock := Some 0\<rparr>
                      else if b = 2 then block_R else no_block),
       topBlocks := [0, 2]\<rparr>"
  by (simp add: child_unattached_def three_blocks_eq setParent_def removeTopBlock_def
      upd_block_def block_P_def block_Q_def block_R_def fun_eq_iff)

text \<open>C7, as amended. \<open>setParent(newParent)\<close> returns without any change when \<open>newParent\<close> is
  the current parent. Otherwise, when the block has a parent and its previous or output
  connection is still connected, it throws; a block that has no parent is not checked.
  It returns exactly in these cases: \<open>newParent\<close> is the current parent; or the block has no
  parent, is on a workspace and is among its top blocks (whatever its connections are
  attached to); or the block has a parent, neither its previous nor its output connection
  is connected, and it is on a workspace or \<open>newParent\<close> is not null. When it returns, the
  block's parent is \<open>newParent\<close>, the block has been removed from the old parent's children
  (from the top blocks when it had no parent) and added at the end of the new parent's
  children (of the top blocks when \<open>newParent\<close> is null).\<close>

theorem setParent_contract:
  "(newParent = parentBlock (blocks s b) \<longrightarrow> setParent s b newParent = Normal s) \<and>
   (newParent \<noteq> parentBlock (blocks s b) \<and> parentBlock (blocks s b) \<noteq> None \<and>
    ((\<exists>c. previousConnection (blocks s b) = Some c \<and> isConnected s c) \<or>
     (\<exists>c. outputConnection (blocks s b) = Some c \<and> isConnected s c))
      \<longrightarrow> \<not> is_Normal (setParent s b newParent)) \<and>
   (is_Normal (setParent s b newParent) \<longleftrightarrow>
      newParent = parentBlock (blocks s b) \<or>
      (case parentBlock (blocks s b) of
         None \<Rightarrow> workspace (blocks s b) \<and> b \<in> set (topBlocks s)
       | Some p \<Rightarrow>
           (\<forall>c. previousConnection (blocks s b) = Some c \<longrightarrow> \<not> isConnected s c) \<and>
           (\<forall>c. outputConnection (blocks s b) = Some c \<longrightarrow> \<not> isConnected s c) \<and>
           (newParent = None \<longrightarrow> workspace (blocks s b)))) \<and>
   (newParent \<noteq> parentBlock (blocks s b) \<and> setParent s b newParent = Normal s' \<longrightarrow>
      parentBlock (blocks s' b) = newParent \<and>
      (\<forall>p. parentBlock (blocks s b) = Some p \<longrightarrow>
           childBlocks (blocks s' p) = remove1 b (childBlocks (blocks s p))) \<and>
      (parentBlock (blocks s b) = None \<longrightarrow> topBlocks s' = remove1 b (topBlocks s)) \<and>
      (\<forall>q. newParent = Some q \<longrightarrow>
           childBlocks (blocks s' q) = childBlocks (blocks s q) @ [b]) \<and>
      (newParent = None \<longrightarrow> topBlocks s' = topBlocks s @ [b]))"
proof -
  have same: "newParent = parentBlock (blocks s b) \<longrightarrow> setParent s b newParent = Normal s"
    by (simp add: setParent_def)
  show ?thesis
    using same setParent_throws [of newParent s b] setParent_success [of newParent s b s']
      setParent_returns_iff [of s b newParent]
    by blast
qed

text \<open>On the stack P, Q, R: giving Q the parent it has changes nothing; giving Q no parent
  while it hangs on P throws. On the three unconnected blocks, making P the parent of Q
  returns: Q leaves the top blocks and becomes P's only child. Q, a child of P whose
  connections are free, is moved below R: it leaves P's children and becomes R's only
  child.\<close>

theorem setParent_contract_witness:
  "setParent stack_PQR 1 (Some 0) = Normal stack_PQR \<and>
   \<not> is_Normal (setParent stack_PQR 1 None) \<and>
   is_Normal (setParent three_blocks 1 (Some 0)) \<and>
   parentBlock (blocks (state_of (setParent three_blocks 1 (Some 0))) 1) = Some 0 \<and>
   topBlocks (state_of (setParent three_blocks 1 (Some 0))) = [0, 2] \<and>
   childBlocks (blocks (state_of (setParent three_blocks 1 (Some 0))) 0) = [1] \<and>
   is_Normal (setParent child_unattached 1 (Some 2)) \<and>
   parentBlock (blocks (state_of (setParent child_unattached 1 (Some 2))) 1) = Some 2 \<and>
   childBlocks (blocks (state_of (setParent child_unattached 1 (Some 2))) 0) = [] \<and>
   childBlocks (blocks (state_of (setParent child_unattached 1 (Some 2))) 2) = [1]"
proof -
  have a: "parentBlock (blocks stack_PQR 1) = Some 0"
    "previousConnection (blocks stack_PQR 1) = Some 2" "isConnected stack_PQR 2"
    by (simp_all add: stack_PQR_eq three_blocks_eq block_Q_def three_conns_def isConnected_def)
  have b: "parentBlock (blocks three_blocks 1) = None" "topBlocks three_blocks = [0, 1, 2]"
    "childBlocks (blocks three_blocks 0) = []" "workspace (blocks three_blocks 1)"
    by (simp_all add: three_blocks_eq block_P_def block_Q_def)
  have c: "is_Normal (setParent three_blocks 1 (Some 0))"
    using setParent_contract [of "Some 0" three_blocks 1 three_blocks] b by simp
  then have d: "setParent three_blocks 1 (Some 0) = Normal (state_of (setParent three_blocks 1 (Some 0)))"
    by (cases "setParent three_blocks 1 (Some 0)") simp_all
  have e: "parentBlock (blocks child_unattached 1) = Some 0"
    "previousConnection (blocks child_unattached 1) = Some 2"
    "outputConnection (blocks child_unattached 1) = None"
    "\<not> isConnected child_unattached 2"
    "childBlocks (blocks child_unattached 0) = [1]"
    "childBlocks (blocks child_unattached 2) = []"
    by (simp_all add: child_unattached_eq three_blocks_eq block_P_def block_Q_def block_R_def
        three_conns_def free_conn_def isConnected_def)
  have f: "is_Normal (setParent child_unattached 1 (Some 2))"
    using setParent_contract [of "Some 2" child_unattached 1 child_unattached] e by simp
  then have g: "setParent child_unattached 1 (Some 2) =
      Normal (state_of (setParent child_unattached 1 (Some 2)))"
    by (cases "setParent child_unattached 1 (Some 2)") simp_all
  show ?thesis
    using setParent_contract [of "Some 0" stack_PQR 1 stack_PQR]
      setParent_contract [of None stack_PQR 1 stack_PQR]
      setParent_contract [of "Some 0" three_blocks 1 "state_of (setParent three_blocks 1 (Some 0))"]
      setParent_contract [of "Some 2" child_unattached 1
        "state_of (setParent child_unattached 1 (Some 2))"]
      a b c d e f g
    by auto
qed

text \<open>C7 as stated fails: Q has no parent, its previous connection is attached to P's next
  connection, and \<open>setParent\<close> to P returns normally instead of throwing.\<close>

theorem setParent_accepts_attached_block_without_parent:
  "parentBlock (blocks attached_no_parent 1) = None \<and>
   previousConnection (blocks attached_no_parent 1) = Some 2 \<and>
   isConnected attached_no_parent 2 \<and>
   is_Normal (setParent attached_no_parent 1 (Some 0))"
  by (simp add: attached_no_parent_eq three_blocks_eq block_Q_def three_conns_def
      isConnected_def setParent_def removeTopBlock_def upd_block_def)

section \<open>Unplugging a block from the middle of a stack\<close>


text \<open>C2. For a stack of three blocks P, Q, R joined by previous and next connections,
  \<open>Q.unplug(true)\<close> returns with Q disconnected from P and from R (both of Q's connections
  are free and Q has no parent); P's next connection is then attached to R's previous
  connection, and R is P's child, exactly when the type check between those two ends
  succeeds; when it fails, both ends are left unconnected and R has no parent.\<close>

theorem unplug_heals_stack_iff_types_match:
  assumes st: "stack_of_three s P Q R pn qp qn rp"
  shows "\<exists>s'. unplug s Q True = Normal s' \<and>
     targetConnection (conns s' qp) = None \<and> targetConnection (conns s' qn) = None \<and>
     parentBlock (blocks s' Q) = None \<and>
     (if checkType s pn rp
      then targetConnection (conns s' pn) = Some rp \<and> targetConnection (conns s' rp) = Some pn \<and>
           parentBlock (blocks s' R) = Some P
      else targetConnection (conns s' pn) = None \<and> targetConnection (conns s' rp) = None \<and>
           parentBlock (blocks s' R) = None)"
proof -
  define s1 where "s1 = detached s qp pn Q P"
  define s2 where "s2 = detached s1 rp qn R Q"
  from st have ne: "P \<noteq> Q" "P \<noteq> R" "Q \<noteq> R" "pn \<noteq> qp" "pn \<noteq> qn" "pn \<noteq> rp" "qp \<noteq> qn"
      "qp \<noteq> rp" "qn \<noteq> rp"
    by (simp_all add: stack_of_three_def)
  from st have Q: "outputConnection (blocks s Q) = None" "previousConnection (blocks s Q) = Some qp"
      "nextConnection (blocks s Q) = Some qn" "parentBlock (blocks s Q) = Some P"
      "workspace (blocks s Q)"
    by (simp_all add: stack_of_three_def)
  from st have R: "outputConnection (blocks s R) = None" "previousConnection (blocks s R) = Some rp"
      "parentBlock (blocks s R) = Some Q" "workspace (blocks s R)"
    by (simp_all add: stack_of_three_def)
  from st have C: "sourceBlock (conns s pn) = P" "conn_type (conns s pn) = NEXT_STATEMENT"
      "sourceBlock (conns s qp) = Q" "conn_type (conns s qp) = PREVIOUS_STATEMENT"
      "sourceBlock (conns s qn) = Q" "conn_type (conns s qn) = NEXT_STATEMENT"
      "sourceBlock (conns s rp) = R" "conn_type (conns s rp) = PREVIOUS_STATEMENT"
      "targetConnection (conns s pn) = Some qp" "targetConnection (conns s qp) = Some pn"
      "targetConnection (conns s qn) = Some rp" "targetConnection (conns s rp) = Some qn"
    by (simp_all add: stack_of_three_def)
  have d1: "disconnect s qp = Normal s1"
    unfolding s1_def by (rule disconnect_child) (simp_all add: Q C)
  have R1: "targetConnection (conns s1 rp) = Some qn" "conn_type (conns s1 rp) = PREVIOUS_STATEMENT"
      "sourceBlock (conns s1 rp) = R" "parentBlock (blocks s1 R) = Some Q"
      "previousConnection (blocks s1 R) = Some rp" "outputConnection (blocks s1 R) = None"
      "workspace (blocks s1 R)"
    using ne by (simp_all add: s1_def detached_def upd_defs R C)
  have Q1: "nextConnection (blocks s1 Q) = Some qn" "targetConnection (conns s1 qn) = Some rp"
    using ne by (simp_all add: s1_def detached_def upd_defs Q C)
  have d2: "disconnect s1 rp = Normal s2"
    unfolding s2_def by (rule disconnect_child) (simp_all add: R1)
  have nb: "getNextBlock s1 Q = Some R"
    by (simp add: getNextBlock_def targetBlock_def Q1 R1)
  have ct: "checkType s2 pn rp = checkType s pn rp"
    by (simp add: checkType_def s2_def s1_def detached_def upd_defs)
  have s2_facts: "targetConnection (conns s2 qp) = None" "targetConnection (conns s2 qn) = None"
      "parentBlock (blocks s2 Q) = None" "targetConnection (conns s2 pn) = None"
      "targetConnection (conns s2 rp) = None" "parentBlock (blocks s2 R) = None"
    using ne by (simp_all add: s2_def s1_def detached_def upd_defs)
  have run: "unplug s Q True =
      (if checkType s pn rp then connect s2 pn rp else Normal s2)"
    by (simp add: unplug_def Q C isConnected_def d1 d2 nb Q1 ct)
  show ?thesis
  proof (cases "checkType s pn rp")
    case False
    with run s2_facts show ?thesis by simp
  next
    case True
    have c3: "connect s2 pn rp = Normal (attached s2 pn rp R P)"
      using ne True
      by (intro connect_child) (simp_all add: ct, simp_all add: s2_def s1_def detached_def upd_defs C R)
    have "targetConnection (conns (attached s2 pn rp R P) qp) = None"
      "targetConnection (conns (attached s2 pn rp R P) qn) = None"
      "parentBlock (blocks (attached s2 pn rp R P) Q) = None"
      "targetConnection (conns (attached s2 pn rp R P) pn) = Some rp"
      "targetConnection (conns (attached s2 pn rp R P) rp) = Some pn"
      "parentBlock (blocks (attached s2 pn rp R P) R) = Some P"
      using ne by (simp_all add: attached_def s2_def s1_def detached_def upd_defs)
    with run True c3 show ?thesis by simp
  qed
qed

text \<open>On the stack P, Q, R with unconstrained connections the ends are joined; on the stack
  whose ends accept only A and only B they stay free.\<close>

theorem unplug_heals_stack_iff_types_match_witness:
  "stack_of_three stack_PQR 0 1 2 1 2 3 4 \<and> checkType stack_PQR 1 4 \<and>
   is_Normal (unplug stack_PQR 1 True) \<and>
   targetConnection (conns (state_of (unplug stack_PQR 1 True)) 2) = None \<and>
   targetConnection (conns (state_of (unplug stack_PQR 1 True)) 3) = None \<and>
   targetConnection (conns (state_of (unplug stack_PQR 1 True)) 1) = Some 4 \<and>
   targetConnection (conns (state_of (unplug stack_PQR 1 True)) 4) = Some 1 \<and>
   stack_of_three typed_stack 0 1 2 1 2 3 4 \<and> \<not> checkType typed_stack 1 4 \<and>
   is_Normal (unplug typed_stack 1 True) \<and>
   targetConnection (conns (state_of (unplug typed_stack 1 True)) 2) = None \<and>
   targetConnection (conns (state_of (unplug typed_stack 1 True)) 3) = None \<and>
   targetConnection (conns (state_of (unplug typed_stack 1 True)) 1) = None \<and>
   targetConnection (conns (state_of (unplug typed_stack 1 True)) 4) = None"
  using unplug_heals_stack_iff_types_match [OF stack_PQR_is_stack]
    unplug_heals_stack_iff_types_match [OF typed_stack_is_stack]
    stack_PQR_is_stack typed_stack_is_stack stack_checks
  by auto

section \<open>Output connection or previous connection\<close>




section \<open>Creating a block\<close>




section \<open>Disposing twice\<close>

text \<open>C6. After a \<open>dispose\<close> that returned, a second \<open>dispose\<close> of the same block returns
  at once (any positive depth bound is enough), does not throw, and leaves the store as it
  is: the undo stack and the log of fired events included, so no second Delete event is
  fired.\<close>

theorem dispose_twice_is_noop:
  "dispose n s b h = Some (Normal s') \<Longrightarrow> dispose (Suc m) s' b h' = Some (Normal s')"
  using dispose_forgets_workspace [of n s b h s'] by simp

text \<open>Disposing P on the stack P, Q, R returns and logs one Delete event; disposing P
  again changes nothing.\<close>

theorem dispose_twice_is_noop_witness:
  "dispose 3 stack_PQR 0 False = Some (Normal disposed_PQR) \<and>
   dispose 1 disposed_PQR 0 True = Some (Normal disposed_PQR) \<and>
   calls disposed_PQR = calls stack_PQR @
     [Fired delete_P, Deregistered 0, Deregistered 1, Deregistered 2,
      DisposedInputs 2, DisposedConnections 2, DisposedInputs 1, DisposedConnections 1,
      DisposedInputs 0, DisposedConnections 0]"
  using dispose_twice_is_noop [OF dispose_stack_PQR, of 0 True] dispose_stack_PQR
  by (simp add: disposed_PQR_def)
section \<open>The log of the steps of dispose\<close>

lemma quiet_refl: "quiet s s"
  by (simp add: quiet_def)

lemma quiet_trans: "quiet s t \<Longrightarrow> quiet t u \<Longrightarrow> quiet s u"
  by (auto simp: quiet_def)

lemma moves_only_refl: "moves_only s s"
  by (simp add: moves_only_def)

lemma moves_only_trans: "moves_only s t \<Longrightarrow> moves_only t u \<Longrightarrow> moves_only s u"
  by (auto simp: moves_only_def)

lemma setParent_calls:
  "calls (state_of (setParent s b p)) = calls s"
  "Events_disabled (state_of (setParent s b p)) = Events_disabled s"
  by (auto simp: setParent_def upd_block_def removeTopBlock_def addTopBlock_def
      Let_def split: option.splits)

lemma fire_move_calls:
  "calls (fire_move s b) =
     calls s @ (if Events_isEnabled s then [Fired (new_event s MOVE b)] else [])"
  by (simp add: fire_move_def Events_fire_def fireChangeListener_def new_event_def Let_def)

lemma fire_move_moves_only: "moves_only s (fire_move s b)"
  by (simp add: moves_only_def fire_move_calls Events_isEnabled_def new_event_def)

lemma setParent_then_move:
  "Events_disabled s1 = Events_disabled s \<Longrightarrow> calls s1 = calls s \<Longrightarrow>
     moves_only s (state_of (and_then (setParent s1 ch p) (\<lambda>s2. Normal (fire_move s2 ch'))))"
proof (cases "setParent s1 ch p")
  case (Normal s2)
  assume a: "Events_disabled s1 = Events_disabled s" "calls s1 = calls s"
  with setParent_calls [of s1 ch p] Normal
  have "Events_disabled s2 = Events_disabled s" "calls s2 = calls s" by simp_all
  then have "moves_only s s2" by (simp add: moves_only_def)
  with fire_move_moves_only [of s2 ch'] Normal show ?thesis
    by (auto intro: moves_only_trans)
next
  case (Thrown e s2)
  assume a: "Events_disabled s1 = Events_disabled s" "calls s1 = calls s"
  with setParent_calls [of s1 ch p] Thrown show ?thesis
    by (simp add: moves_only_def)
qed

lemma disconnect_moves_only: "moves_only s (state_of (disconnect s c))"
proof (cases "targetConnection (conns s c)")
  case None
  then show ?thesis by (simp add: disconnect_def moves_only_refl)
next
  case (Some t)
  have "moves_only s (state_of (and_then
      (setParent (upd_conn c (\<lambda>x. x\<lparr>targetConnection := None\<rparr>)
                   (upd_conn t (\<lambda>x. x\<lparr>targetConnection := None\<rparr>) s)) ch None)
      (\<lambda>s2. Normal (fire_move s2 ch))))" for ch
    by (rule setParent_then_move) (simp_all add: upd_conn_def)
  with Some show ?thesis by (simp add: disconnect_def Let_def)
qed

lemma connect_moves_only: "moves_only s (state_of (connect s c d))"
proof -
  have "moves_only s (state_of (and_then
      (setParent (upd_conn c (\<lambda>x. x\<lparr>targetConnection := Some d\<rparr>)
                   (upd_conn d (\<lambda>x. x\<lparr>targetConnection := Some c\<rparr>) s)) ch p)
      (\<lambda>s2. Normal (fire_move s2 ch'))))" for ch ch' p
    by (rule setParent_then_move) (simp_all add: upd_conn_def)
  then show ?thesis by (simp add: connect_def Let_def moves_only_refl)
qed

lemma and_then_moves_only:
  "moves_only s (state_of r) \<Longrightarrow> (\<And>t. moves_only t (state_of (f t))) \<Longrightarrow>
     moves_only s (state_of (and_then r f))"
  by (cases r) (auto intro: moves_only_trans)

lemma unplug_moves_only: "moves_only s (state_of (unplug s b h))"
  unfolding unplug_def Let_def
  by (auto split: option.splits intro!: and_then_moves_only
      simp: disconnect_moves_only connect_moves_only moves_only_refl)

lemma deregister_calls:
  "Events_disabled (state_of (deregister s b)) = Events_disabled s"
  "quiet s (state_of (deregister s b))"
  "deregister s b = Normal t \<Longrightarrow> workspace (blocks s b) \<Longrightarrow>
     calls t = calls s @ [Deregistered b]"
  by (auto simp: deregister_def removeTopBlock_def upd_block_def quiet_def Let_def
      split: if_splits)

lemma foldl_input_dispose_frame [simp]:
  "calls (foldl input_dispose s is) = calls s"
  "Events_disabled (foldl input_dispose s is) = Events_disabled s"
  by (induction "is" arbitrary: s)
    (simp_all add: input_dispose_def conn_dispose_def upd_conn_def split: option.splits)

lemma dispose_inputs_calls:
  "Events_disabled (dispose_inputs s b) = Events_disabled s"
  "calls (dispose_inputs s b) = calls s @ [DisposedInputs b]"
  by (simp_all add: dispose_inputs_def upd_block_def Let_def)

lemma dispose_connections_loop_calls:
  "Events_disabled (state_of (dispose_connections_loop s cs)) = Events_disabled s \<and>
   (0 < Events_disabled s \<longrightarrow> calls (state_of (dispose_connections_loop s cs)) = calls s)"
proof (induction cs arbitrary: s)
  case Nil
  then show ?case by simp
next
  case (Cons c cs)
  have a: "moves_only s (state_of (if isConnected s c then disconnect s c else Normal s))"
    by (simp add: disconnect_moves_only moves_only_refl)
  show ?case
  proof (cases "if isConnected s c then disconnect s c else Normal s")
    case (Thrown e t)
    with a show ?thesis by (auto simp: moves_only_def)
  next
    case (Normal t)
    with a Cons.IH [of "conn_dispose t c"] show ?thesis
      by (auto simp: moves_only_def conn_dispose_def upd_conn_def)
  qed
qed

lemma dispose_connections_calls:
  "Events_disabled (state_of (dispose_connections s b)) = Events_disabled s"
  "0 < Events_disabled s \<Longrightarrow> quiet s (state_of (dispose_connections s b))"
  "dispose_connections s b = Normal t \<Longrightarrow> 0 < Events_disabled s \<Longrightarrow>
     calls t = calls s @ [DisposedConnections b]"
  using dispose_connections_loop_calls [of s "getConnections s b"]
  by (cases "dispose_connections_loop s (getConnections s b)";
      auto simp: dispose_connections_def quiet_def)+

lemma dispose_quiet:
  "dispose n s b h = Some r \<Longrightarrow>
     Events_disabled (state_of r) = Events_disabled s \<and>
     (0 < Events_disabled s \<longrightarrow> quiet s (state_of r))"
  and dispose_children_quiet:
  "dispose_children n s b i = Some r \<Longrightarrow>
     Events_disabled (state_of r) = Events_disabled s \<and>
     (0 < Events_disabled s \<longrightarrow> quiet s (state_of r))"
proof (induction n s b h and n s b i arbitrary: r and r rule: dispose_dispose_children.induct)
  case (1 s b h)
  then show ?case by simp
next
  case (2 n s b h)
  show ?case
  proof (cases "workspace (blocks s b)")
    case False
    with 2(2) show ?thesis by (auto simp: quiet_refl)
  next
    case True
    note ws = this
    have u: "moves_only s (state_of (unplug s b h))" by (rule unplug_moves_only)
    show ?thesis
    proof (cases "unplug s b h")
      case (Thrown e s1)
      with 2(2) ws u show ?thesis by (auto simp: moves_only_def quiet_def)
    next
      case (Normal s1)
      define s3 where "s3 = Events_disable (if Events_isEnabled s1
          then Events_fire s1 (new_event s1 DELETE b) else s1)"
      have s1: "Events_disabled s1 = Events_disabled s"
        "0 < Events_disabled s \<Longrightarrow> calls s1 = calls s"
        using u Normal by (auto simp: moves_only_def)
      have s3: "Events_disabled s3 = Suc (Events_disabled s)"
        "0 < Events_disabled s \<Longrightarrow> calls s3 = calls s"
        using s1 by (simp_all add: s3_def Events_disable_def Events_isEnabled_def
            Events_fire_def fireChangeListener_def Let_def)
      note d = deregister_calls(1,2) [of s3 b]
      show ?thesis
      proof (cases "deregister s3 b")
        case (Thrown e s4)
        have "r = Thrown e (Events_enable s4)"
          using 2(2) ws Normal Thrown by (simp add: s3_def [symmetric] Let_def)
        with d s3 Thrown show ?thesis
          by (auto simp: Events_enable_def quiet_def)
      next
        case N4: (Normal s4)
        have s4: "Events_disabled s4 = Suc (Events_disabled s)" "quiet s3 s4"
          using d s3 N4 by simp_all
        from 2(2) ws Normal N4 obtain r5 where
          r5: "dispose_children n s4 b (length (childBlocks (blocks s4 b))) = Some r5"
          by (cases "dispose_children n s4 b (length (childBlocks (blocks s4 b)))")
            (simp_all add: s3_def [symmetric] Let_def)
        have ih: "Events_disabled (state_of r5) = Events_disabled s4 \<and>
            (0 < Events_disabled s4 \<longrightarrow> quiet s4 (state_of r5))"
          by (rule 2(1) [OF _ Normal refl refl]) (use ws N4 r5 in \<open>simp_all add: s3_def\<close>)
        with s4 have s5: "Events_disabled (state_of r5) = Suc (Events_disabled s)"
          "quiet s3 (state_of r5)"
          by (auto intro: quiet_trans)
        show ?thesis
        proof (cases r5)
          case (Thrown e s5)
          have "r = Thrown e (Events_enable s5)"
            using 2(2) ws Normal N4 r5 Thrown by (simp add: s3_def [symmetric] Let_def)
          with s5 s3 Thrown show ?thesis
            by (auto simp: Events_enable_def quiet_def)
        next
          case N5: (Normal s5)
          define r6 where "r6 = dispose_connections (dispose_inputs s5 b) b"
          have r: "r = try_finally r6 Events_enable"
            using 2(2) ws Normal N4 r5 N5 by (simp add: s3_def [symmetric] Let_def r6_def)
          have i: "quiet s5 (dispose_inputs s5 b)"
            by (simp add: quiet_def dispose_inputs_calls)
          have r6: "Events_disabled (state_of r6) = Suc (Events_disabled s)"
            "quiet s3 (state_of r6)"
            using s5 N5 i dispose_connections_calls(1,2) [of "dispose_inputs s5 b" b]
            by (auto simp: r6_def dispose_inputs_calls intro: quiet_trans)
          show ?thesis
            using r r6 s3 by (cases r6) (auto simp: Events_enable_def quiet_def)
        qed
      qed
    qed
  qed
next
  case (3 n s b)
  then show ?case by (auto simp: quiet_refl)
next
  case (4 n s b i)
  show ?case
  proof (cases "i < length (childBlocks (blocks s b))")
    case False
    with 4(3) show ?thesis by (auto simp: quiet_refl)
  next
    case True
    from 4(3) True obtain r1 where r1: "dispose n s (childBlocks (blocks s b) ! i) False = Some r1"
      by (auto split: option.splits)
    note a = 4(1) [OF True r1]
    show ?thesis
    proof (cases r1)
      case (Thrown e s1)
      with 4(3) True r1 a show ?thesis by auto
    next
      case (Normal s1)
      with 4(3) True r1 have "dispose_children n s1 b i = Some r" by auto
      from 4(2) [OF True r1 Normal this] a Normal show ?thesis
        by (auto intro: quiet_trans)
    qed
  qed
qed

section \<open>Disposing a well-formed tree of blocks\<close>

subsection \<open>The steps on a block that hangs on its parent\<close>













subsection \<open>Trees that stay as they are\<close>



subsection \<open>Forests whose trees are apart\<close>






subsection \<open>The loop over the children\<close>


subsection \<open>A top block and the trees below it\<close>




subsection \<open>A tree that hangs below a block\<close>




subsection \<open>A block that is a top block once it is unplugged\<close>




section \<open>A depth bound that is enough\<close>




section \<open>The stack P, Q, R as a tree\<close>






section \<open>The order of the steps of dispose\<close>






end
